theory Spec2Isabelle
  imports Complex_Main
begin

section \<open>Cells, rows and frames\<close>

text \<open>
  The program is a Streamlit script over a pandas DataFrame. A DataFrame cell, as
  \<open>read_csv\<close> leaves it, is a missing value (NaN), a text, an integer or a float.
  Floats are modelled as real numbers: rounding and overflow are abstracted away, and the
  two infinities, which \<open>float()\<close> can return for a text, are kept as cells of their
  own (\<open>Infty True\<close> is the positive one). NaN is the missing value \<open>NA\<close>.
\<close>

datatype cell = NA | S string | I int | F real | Infty bool

type_synonym row = "string \<Rightarrow> cell"

text \<open>
  A frame has its column labels and its rows in order. A row gives a cell for every
  label; only the labels in \<open>columns\<close> are columns of the frame.
\<close>

record frame =
  columns :: "string list"
  rows :: "row list"

definition empty_frame :: frame where
  \<comment> \<open>\<open>pd.DataFrame()\<close>\<close>
  "empty_frame = \<lparr>columns = [], rows = []\<rparr>"

definition df_empty :: "frame \<Rightarrow> bool" where
  \<comment> \<open>\<open>df.empty\<close>: some axis has length 0\<close>
  "df_empty df = (columns df = [] \<or> rows df = [])"

definition isna :: "cell \<Rightarrow> bool" where
  "isna v = (v = NA)"

definition is_str :: "cell \<Rightarrow> bool" where
  \<comment> \<open>\<open>isinstance(x, str)\<close>\<close>
  "is_str v = (case v of S _ \<Rightarrow> True | _ \<Rightarrow> False)"

section \<open>The builtins \<open>float\<close> and \<open>int\<close> on text\<close>

text \<open>
  Python's \<open>float(s)\<close> and \<open>int(s)\<close> on ASCII text, after the grammar of the language
  reference: blanks around the number are dropped, one sign is allowed, digits may be
  grouped by single underscores, a float has an optional fraction and exponent, and
  \<open>inf\<close>, \<open>infinity\<close> and \<open>nan\<close> are read in any letter case. Any other text raises
  \<open>ValueError\<close>.
\<close>

datatype exn = ValueError | ZeroDivisionError

definition is_space :: "char \<Rightarrow> bool" where
  "is_space c = (c \<in> set [CHR '' '', CHR 0x09, CHR 0x0A, CHR 0x0B, CHR 0x0C, CHR 0x0D,
                           CHR 0x1C, CHR 0x1D, CHR 0x1E, CHR 0x1F])"

definition strip :: "string \<Rightarrow> string" where
  "strip s = rev (dropWhile is_space (rev (dropWhile is_space s)))"

definition lower :: "char \<Rightarrow> char" where
  "lower c = (case map_of (zip ''ABCDEFGHIJKLMNOPQRSTUVWXYZ'' ''abcdefghijklmnopqrstuvwxyz'') c of
                Some d \<Rightarrow> d | None \<Rightarrow> c)"

definition digit_of :: "char \<Rightarrow> nat option" where
  "digit_of c = map_of (zip ''0123456789'' [0, 1, 2, 3, 4, 5, 6, 7, 8, 9]) c"

fun split_sign :: "string \<Rightarrow> bool \<times> string" where
  "split_sign [] = (False, [])"
| "split_sign (c # cs) =
     (if c = CHR ''-'' then (True, cs)
      else if c = CHR ''+'' then (False, cs)
      else (False, c # cs))"

text \<open>\<open>digitpart ::= digit (["_"] digit)*\<close>, giving the digits read.\<close>

fun digitpart :: "string \<Rightarrow> nat list option" where
  "digitpart [] = None"
| "digitpart [c] = map_option (\<lambda>d. [d]) (digit_of c)"
| "digitpart (c # u # cs) =
     (case digit_of c of
        None \<Rightarrow> None
      | Some d \<Rightarrow>
          if u = CHR ''_'' then map_option ((#) d) (digitpart cs)
          else map_option ((#) d) (digitpart (u # cs)))"

definition nat_of_digits :: "nat list \<Rightarrow> nat" where
  "nat_of_digits ds = foldl (\<lambda>a d. 10 * a + d) 0 ds"

text \<open>\<open>number ::= [digitpart] "." digitpart | digitpart ["."]\<close>\<close>

definition number :: "string \<Rightarrow> real option" where
  "number s =
     (let ip = takeWhile (\<lambda>c. c \<noteq> CHR ''.'') s;
          rest = dropWhile (\<lambda>c. c \<noteq> CHR ''.'') s
      in if rest = [] then map_option (\<lambda>ds. real (nat_of_digits ds)) (digitpart ip)
         else let fp = tl rest in
           if ip = [] then
             map_option (\<lambda>fs. real (nat_of_digits fs) / 10 ^ length fs) (digitpart fp)
           else if fp = [] then map_option (\<lambda>ds. real (nat_of_digits ds)) (digitpart ip)
           else (case (digitpart ip, digitpart fp) of
                   (Some ds, Some fs) \<Rightarrow>
                     Some (real (nat_of_digits ds) + real (nat_of_digits fs) / 10 ^ length fs)
                 | _ \<Rightarrow> None))"

text \<open>\<open>floatnumber ::= number [("e" | "E") [sign] digitpart]\<close>\<close>

definition floatnumber :: "string \<Rightarrow> real option" where
  "floatnumber s =
     (let is_e = (\<lambda>c. c = CHR ''e'' \<or> c = CHR ''E'');
          m = takeWhile (\<lambda>c. \<not> is_e c) s;
          rest = dropWhile (\<lambda>c. \<not> is_e c) s
      in if rest = [] then number m
         else (case (number m, split_sign (tl rest)) of
                 (Some x, (neg, ds)) \<Rightarrow>
                   (case digitpart ds of
                      None \<Rightarrow> None
                    | Some es \<Rightarrow>
                        Some (if neg then x / 10 ^ nat_of_digits es
                              else x * 10 ^ nat_of_digits es))
               | (None, _) \<Rightarrow> None))"

definition py_float :: "string \<Rightarrow> exn + cell" where
  "py_float s =
     (case split_sign (strip s) of
        (neg, body) \<Rightarrow>
          let word = map lower body in
          if word = ''nan'' then Inr NA
          else if word = ''inf'' \<or> word = ''infinity'' then Inr (Infty (\<not> neg))
          else (case floatnumber body of
                  None \<Rightarrow> Inl ValueError
                | Some x \<Rightarrow> Inr (F (if neg then - x else x))))"

definition py_int :: "string \<Rightarrow> exn + cell" where
  "py_int s =
     (case split_sign (strip s) of
        (neg, body) \<Rightarrow>
          (case digitpart body of
             None \<Rightarrow> Inl ValueError
           | Some ds \<Rightarrow> Inr (I (if neg then - int (nat_of_digits ds) else int (nat_of_digits ds)))))"

definition replace_char :: "char \<Rightarrow> string \<Rightarrow> string" where
  \<comment> \<open>\<open>s.replace(c, '')\<close> for a one-character \<open>c\<close>\<close>
  "replace_char c s = filter (\<lambda>d. d \<noteq> c) s"

section \<open>Loading and cleaning: \<open>load_data\<close>\<close>

text \<open>
  \<open>pd.read_csv\<close> is pandas' own: its outcome is the input here, either the text of the
  exception it raised or the parsed frame. \<open>load_data\<close> catches that exception, reports
  with \<open>st.error\<close> (the messages are returned, in order) and returns a frame; the
  \<open>st.write\<close> of the column names is display only and left out. The conversions are
  not guarded in the source, so a \<open>ValueError\<close> of \<open>float\<close> or \<open>int\<close> leaves
  \<open>load_data\<close> as an exception: the \<open>Inl\<close> results.
\<close>

definition required_columns :: "string list" where
  "required_columns = [''REVENUES'', ''PROFIT'', ''EMPLOYEES'', ''NAME'', ''STATE'', ''COUNTY'']"

fun join :: "string \<Rightarrow> string list \<Rightarrow> string" where
  "join sep [] = []"
| "join sep [x] = x"
| "join sep (x # y # ys) = x @ sep @ join sep (y # ys)"

definition dropna :: "string list \<Rightarrow> frame \<Rightarrow> frame" where
  \<comment> \<open>\<open>df.dropna(subset=...)\<close>: a row goes when any of the named cells is missing\<close>
  "dropna cols df = df\<lparr>rows := filter (\<lambda>r. list_all (\<lambda>c. \<not> isna (r c)) cols) (rows df)\<rparr>"

definition clean_money :: "cell \<Rightarrow> exn + cell" where
  \<comment> \<open>\<open>lambda x: float(str(x).replace('$', '').replace(',', '')) if isinstance(x, str) else x\<close>\<close>
  "clean_money x =
     (case x of
        S s \<Rightarrow> py_float (replace_char CHR '','' (replace_char CHR ''$'' s))
      | _ \<Rightarrow> Inr x)"

definition clean_count :: "cell \<Rightarrow> exn + cell" where
  \<comment> \<open>\<open>lambda x: int(str(x).replace(',', '')) if isinstance(x, str) else x\<close>\<close>
  "clean_count x =
     (case x of
        S s \<Rightarrow> py_int (replace_char CHR '','' s)
      | _ \<Rightarrow> Inr x)"

definition set_cell :: "string \<Rightarrow> cell \<Rightarrow> row \<Rightarrow> row" where
  "set_cell c v r = r(c := v)"

text \<open>
  \<open>df[c] = df[c].apply(f)\<close>: \<open>f\<close> runs on the cells of column \<open>c\<close> from the first
  row down and the first exception ends it; otherwise every row gets its new cell.
\<close>

fun apply_column :: "string \<Rightarrow> (cell \<Rightarrow> exn + cell) \<Rightarrow> row list \<Rightarrow> exn + row list" where
  "apply_column c f [] = Inr []"
| "apply_column c f (r # rs) =
     (case f (r c) of
        Inl e \<Rightarrow> Inl e
      | Inr v \<Rightarrow>
          (case apply_column c f rs of
             Inl e \<Rightarrow> Inl e
           | Inr rs' \<Rightarrow> Inr (set_cell c v r # rs')))"

definition load_data :: "string + frame \<Rightarrow> exn + (string list \<times> frame)" where
  "load_data uploaded_file =
     (case uploaded_file of
        Inl e \<Rightarrow> Inr ([''Error reading file: '' @ e], empty_frame)
      | Inr df \<Rightarrow>
          let missing_columns = filter (\<lambda>col. col \<notin> set (columns df)) required_columns in
          if missing_columns \<noteq> [] then
            Inr ([''Missing columns in the uploaded data: '' @ join '', '' missing_columns], df)
          else
            let df1 = dropna [''REVENUES'', ''PROFIT'', ''EMPLOYEES''] df in
            (case apply_column ''REVENUES'' clean_money (rows df1) of
               Inl e \<Rightarrow> Inl e
             | Inr rs1 \<Rightarrow>
                 (case apply_column ''PROFIT'' clean_money rs1 of
                    Inl e \<Rightarrow> Inl e
                  | Inr rs2 \<Rightarrow>
                      (case apply_column ''EMPLOYEES'' clean_count rs2 of
                         Inl e \<Rightarrow> Inl e
                       | Inr rs3 \<Rightarrow> Inr ([], df1\<lparr>rows := rs3\<rparr>)))))"

section \<open>The aggregations of the script\<close>

text \<open>
  The aggregations compute on the numbers of a column. \<open>num\<close> reads a cell as a number;
  a text, a missing value or an infinity is none, and \<open>column_values\<close> is \<open>None\<close> for a
  column holding one: there pandas leaves exact arithmetic (it skips NaN, concatenates
  text, propagates infinities) and the model stops.
\<close>

definition num :: "cell \<Rightarrow> real option" where
  "num v = (case v of I n \<Rightarrow> Some (real_of_int n) | F x \<Rightarrow> Some x | _ \<Rightarrow> None)"

definition column_values :: "string \<Rightarrow> frame \<Rightarrow> real list option" where
  "column_values c df = those (map (\<lambda>r. num (r c)) (rows df))"

definition mean :: "real list \<Rightarrow> cell" where
  \<comment> \<open>\<open>Series.mean()\<close>: NaN for no values\<close>
  "mean xs = (if xs = [] then NA else F (sum_list xs / real (length xs)))"

subsection \<open>Grouping by a key column\<close>

text \<open>
  \<open>groupby\<close> collects, per key, the values of its rows in row order; a row whose key is
  missing joins no group (pandas' default \<open>dropna=True\<close>).
\<close>

definition group_add :: "(cell \<rightharpoonup> real list) \<Rightarrow> cell \<times> real \<Rightarrow> (cell \<rightharpoonup> real list)" where
  "group_add g kv =
     (case kv of (k, v) \<Rightarrow>
        if isna k then g
        else g(k \<mapsto> (case g k of None \<Rightarrow> [v] | Some vs \<Rightarrow> vs @ [v])))"

definition groupby :: "cell list \<Rightarrow> real list \<Rightarrow> (cell \<rightharpoonup> real list)" where
  "groupby keys vals = foldl group_add Map.empty (zip keys vals)"

definition state_revenue_dict :: "frame \<Rightarrow> (cell \<rightharpoonup> real) option" where
  \<comment> \<open>\<open>dict(df.groupby('STATE')['REVENUES'].sum())\<close>\<close>
  "state_revenue_dict df =
     map_option (\<lambda>vs k. map_option sum_list (groupby (map (\<lambda>r. r ''STATE'') (rows df)) vs k))
       (column_values ''REVENUES'' df)"

definition pivot_table :: "frame \<Rightarrow> (cell \<rightharpoonup> cell) option" where
  \<comment> \<open>\<open>df.pivot_table(values='REVENUES', index='STATE', aggfunc='mean')\<close>\<close>
  "pivot_table df =
     map_option (\<lambda>vs k. map_option mean (groupby (map (\<lambda>r. r ''STATE'') (rows df)) vs k))
       (column_values ''REVENUES'' df)"

subsection \<open>The top companies by revenue\<close>

text \<open>
  \<open>sort_values(by='REVENUES', ascending=False)\<close> runs pandas' default sort,
  \<open>kind='quicksort'\<close>, which is numpy's and not part of the script. The script relies
  on its contract only: the rows come back rearranged, revenue descending. The sort is
  therefore a parameter, a function from the keys to the positions in their new order,
  and \<open>sorts_descending\<close> is the contract. A row is named by its position in the frame,
  which stands for the index label pandas keeps on it; a sort that meets the contract
  returns positions of the frame only.
\<close>

type_synonym sorter = "real list \<Rightarrow> nat list"

definition sorts_descending :: "sorter \<Rightarrow> bool" where
  "sorts_descending srt =
     (\<forall>ks. distinct (srt ks) \<and> set (srt ks) = {..<length ks} \<and>
           sorted_wrt (\<ge>) (map ((!) ks) (srt ks)))"

definition top_companies :: "sorter \<Rightarrow> nat \<Rightarrow> frame \<Rightarrow> (nat \<times> cell \<times> real) list option" where
  \<comment> \<open>\<open>df[['NAME', 'REVENUES']].sort_values(by='REVENUES', ascending=False).head(top_x)\<close>\<close>
  "top_companies srt top_x df =
     map_option (\<lambda>ks. map (\<lambda>i. (i, (rows df ! i) ''NAME'', ks ! i)) (take top_x (srt ks)))
       (column_values ''REVENUES'' df)"

definition total_revenue :: "(nat \<times> cell \<times> real) list \<Rightarrow> real" where
  \<comment> \<open>\<open>top_companies['REVENUES'].sum()\<close>\<close>
  "total_revenue tc = sum_list (map (\<lambda>t. snd (snd t)) tc)"

subsection \<open>The selected state\<close>

definition py_eq :: "cell \<Rightarrow> cell \<Rightarrow> bool" where
  \<comment> \<open>\<open>==\<close> on cells: numbers by value, NaN equal to nothing\<close>
  "py_eq a b =
     (case (num a, num b) of
        (Some x, Some y) \<Rightarrow> x = y
      | _ \<Rightarrow> \<not> isna a \<and> a = b)"

definition state_data :: "cell \<Rightarrow> frame \<Rightarrow> frame" where
  \<comment> \<open>\<open>df[df['STATE'] == state]\<close>\<close>
  "state_data state df = df\<lparr>rows := filter (\<lambda>r. py_eq (r ''STATE'') state) (rows df)\<rparr>"

definition py_truediv :: "real \<Rightarrow> real \<Rightarrow> exn + real" where
  "py_truediv a b = (if b = 0 then Inl ZeroDivisionError else Inr (a / b))"

definition profit_margin :: "real \<Rightarrow> real \<Rightarrow> exn + real" where
  \<comment> \<open>\<open>lambda row: row['PROFIT'] / row['REVENUES'] * 100 if row['REVENUES'] != 0 else 0\<close>\<close>
  "profit_margin profit revenues =
     (if revenues \<noteq> 0 then
        (case py_truediv profit revenues of
           Inl e \<Rightarrow> Inl e
         | Inr q \<Rightarrow> Inr (q * 100))
      else Inr 0)"

fun apply_rows :: "(exn + real) list \<Rightarrow> exn + real list" where
  \<comment> \<open>\<open>apply(..., axis=1)\<close>: row by row, the first exception ends it\<close>
  "apply_rows [] = Inr []"
| "apply_rows (x # xs) =
     (case x of
        Inl e \<Rightarrow> Inl e
      | Inr v \<Rightarrow> (case apply_rows xs of Inl e \<Rightarrow> Inl e | Inr vs \<Rightarrow> Inr (v # vs)))"

definition profit_margins :: "frame \<Rightarrow> (exn + real list) option" where
  "profit_margins sd =
     (case (column_values ''PROFIT'' sd, column_values ''REVENUES'' sd) of
        (Some ps, Some vs) \<Rightarrow> Some (apply_rows (map (\<lambda>(p, v). profit_margin p v) (zip ps vs)))
      | _ \<Rightarrow> None)"

subsection \<open>Frames as objects\<close>

text \<open>
  \<open>state_data['PROFIT_MARGIN'] = ...\<close> changes a frame in place, so the frames live in
  a store and variables hold addresses. Boolean indexing, \<open>df[mask]\<close>, makes a new frame.
\<close>

type_synonym store = "frame list"

definition new_frame :: "frame \<Rightarrow> store \<Rightarrow> nat \<times> store" where
  "new_frame f st = (length st, st @ [f])"

definition set_column :: "string \<Rightarrow> cell list \<Rightarrow> frame \<Rightarrow> frame" where
  \<comment> \<open>the values are one per row here; pandas refuses any other length\<close>
  "set_column c vs f =
     \<lparr>columns = (if c \<in> set (columns f) then columns f else columns f @ [c]),
      rows = map (\<lambda>(r, v). set_cell c v r) (zip (rows f) vs)\<rparr>"

definition setitem :: "nat \<Rightarrow> string \<Rightarrow> cell list \<Rightarrow> store \<Rightarrow> store" where
  "setitem a c vs st = (if a < length st then st[a := set_column c vs (st ! a)] else st)"

record results =
  res_state_revenue_dict :: "cell \<rightharpoonup> real"
  res_top_companies :: "(nat \<times> cell \<times> real) list"
  res_total_revenue :: real
  res_pivot_table :: "cell \<rightharpoonup> cell"
  res_state_data :: nat
  res_avg_profit_margin :: cell
  res_avg_employees :: cell

text \<open>
  One run of the aggregations (lines 65 to 129 of the script) over the frame at address
  \<open>a\<close>, for the slider's \<open>top_x\<close> and the select box's \<open>state\<close>. The result is \<open>None\<close>
  where a numeric column is outside the model, \<open>Inl\<close> for an exception of the margin
  lambda, and the values shown otherwise; \<open>res_state_data\<close> is the address of the
  frame that got the margin column.
\<close>

definition aggregation_pass ::
  "sorter \<Rightarrow> nat \<Rightarrow> nat \<Rightarrow> cell \<Rightarrow> store \<Rightarrow> (exn + results) option \<times> store" where
  "aggregation_pass srt a top_x state st =
     (if \<not> a < length st then (None, st)
      else
        let df = st ! a in
        (case (state_revenue_dict df, top_companies srt top_x df, pivot_table df) of
           (Some d, Some tc, Some pv) \<Rightarrow>
             (case new_frame (state_data state df) st of
                (b, st1) \<Rightarrow>
                  (case profit_margins (st1 ! b) of
                     None \<Rightarrow> (None, st1)
                   | Some (Inl e) \<Rightarrow> (Some (Inl e), st1)
                   | Some (Inr ms) \<Rightarrow>
                       let st2 = setitem b ''PROFIT_MARGIN'' (map F ms) st1 in
                       (case (column_values ''PROFIT_MARGIN'' (st2 ! b),
                              column_values ''EMPLOYEES'' (st2 ! b)) of
                          (Some ms', Some es) \<Rightarrow>
                            (Some (Inr \<lparr>res_state_revenue_dict = d,
                                        res_top_companies = tc,
                                        res_total_revenue = total_revenue tc,
                                        res_pivot_table = pv,
                                        res_state_data = b,
                                        res_avg_profit_margin = mean ms',
                                        res_avg_employees = mean es\<rparr>), st2)
                        | _ \<Rightarrow> (None, st2))))
         | _ \<Rightarrow> (None, st)))"

fun run_passes :: "sorter \<Rightarrow> nat \<Rightarrow> (nat \<times> cell) list \<Rightarrow> store \<Rightarrow> store" where
  \<comment> \<open>one pass per change of a widget, over the same frame\<close>
  "run_passes srt a [] st = st"
| "run_passes srt a ((top_x, state) # ps) st =
     run_passes srt a ps (snd (aggregation_pass srt a top_x state st))"

subsection \<open>The script\<close>

text \<open>
  What a run of the script comes to: no file yet, an exception that left \<open>load_data\<close>,
  the "no data" branch with the errors shown, or the aggregation branch with the errors
  shown before it and the result of the pass.
\<close>

datatype page =
  NoFile
  | Escaped exn
  | NoData "string list"
  | Dashboard "string list" "(exn + results) option"

definition main :: "sorter \<Rightarrow> (string + frame) option \<Rightarrow> nat \<Rightarrow> cell \<Rightarrow> page" where
  "main srt uploaded_file top_x state =
     (case uploaded_file of
        None \<Rightarrow> NoFile
      | Some u \<Rightarrow>
          (case load_data u of
             Inl e \<Rightarrow> Escaped e
           | Inr (errs, df) \<Rightarrow>
               if df_empty df then
                 NoData (errs @ [''No data to display due to missing columns or other issues.''])
               else Dashboard errs (fst (aggregation_pass srt 0 top_x state [df]))))"

section \<open>Specification-side notions and example inputs\<close>

subsection \<open>The cleaning, row by row\<close>

text \<open>
  \<open>load_data\<close> cleans column by column. Row by row, the same cleaning is: a row converts
  when its three conversions succeed, \<open>clean_row\<close> is the row with the three results in
  place, and \<open>cleaned\<close> is the frame of the kept rows, each cleaned.
  \<open>load_data_rowwise\<close> below proves the two views equal.
\<close>

definition converts :: "row \<Rightarrow> bool" where
  "converts r =
     (\<not> isl (clean_money (r ''REVENUES'')) \<and> \<not> isl (clean_money (r ''PROFIT'')) \<and>
      \<not> isl (clean_count (r ''EMPLOYEES'')))"

definition clean_row :: "row \<Rightarrow> row" where
  "clean_row r =
     set_cell ''EMPLOYEES'' (projr (clean_count (r ''EMPLOYEES'')))
       (set_cell ''PROFIT'' (projr (clean_money (r ''PROFIT'')))
          (set_cell ''REVENUES'' (projr (clean_money (r ''REVENUES''))) r))"

definition cleaned :: "frame \<Rightarrow> frame" where
  \<comment> \<open>the frame \<open>load_data\<close> returns when every kept row converts\<close>
  "cleaned df =
     \<lparr>columns = columns df,
      rows = map clean_row (rows (dropna [''REVENUES'', ''PROFIT'', ''EMPLOYEES''] df))\<rparr>"

text \<open>The Python type of a cell: \<open>float\<close> (NaN and the infinities are floats) and \<open>int\<close>.\<close>

definition is_float :: "cell \<Rightarrow> bool" where
  "is_float v = (case v of F _ \<Rightarrow> True | NA \<Rightarrow> True | Infty _ \<Rightarrow> True | _ \<Rightarrow> False)"

definition is_int :: "cell \<Rightarrow> bool" where
  "is_int v = (case v of I _ \<Rightarrow> True | _ \<Rightarrow> False)"

text \<open>The sum of the values of a dictionary.\<close>

definition mapping_total :: "(cell \<rightharpoonup> real) \<Rightarrow> real" where
  "mapping_total m = (\<Sum>k\<in>dom m. case m k of Some v \<Rightarrow> v | None \<Rightarrow> 0)"

subsection \<open>Two sorts that meet the contract\<close>

text \<open>
  A stable descending sort, and one that leaves rows of equal revenue in reverse order.
  Both return the positions by descending key (\<open>stable_sorter_sorts\<close> and
  \<open>tie_reversing_sorter_sorts\<close> below).
\<close>

definition stable_sorter :: sorter where
  "stable_sorter ks = sort_key (\<lambda>i. - ks ! i) [0..<length ks]"


subsection \<open>Parsed inputs\<close>

text \<open>
  Frames as \<open>read_csv\<close> returns them. A column in which some entry is not a number is
  read as text throughout, so \<open>500\<close> beside \<open>1,000\<close> is the text \<open>500\<close>; an empty
  entry is missing; a column of plain numbers is read as integers or floats.
\<close>

definition mk_row :: "(string \<times> cell) list \<Rightarrow> row" where
  "mk_row kvs = (\<lambda>c. case map_of kvs c of Some v \<Rightarrow> v | None \<Rightarrow> NA)"

definition all_columns :: "string list" where
  "all_columns = [''NAME'', ''REVENUES'', ''PROFIT'', ''EMPLOYEES'', ''STATE'', ''COUNTY'']"

definition acme :: row where
  "acme = mk_row [(''NAME'', S ''Acme''), (''REVENUES'', S ''$1,000.00''),
                  (''PROFIT'', S ''$100.00''), (''EMPLOYEES'', S ''1,000''),
                  (''STATE'', S ''CA''), (''COUNTY'', S ''Santa Clara'')]"

definition scenario_A :: frame where
  \<comment> \<open>Scenario A of the specification\<close>
  "scenario_A =
     \<lparr>columns = all_columns,
      rows = [acme,
              mk_row [(''NAME'', S ''Beta''), (''REVENUES'', S ''$500.00''),
                      (''PROFIT'', S ''-$50.00''), (''EMPLOYEES'', S ''500''),
                      (''STATE'', S ''CA''), (''COUNTY'', S ''Santa Clara'')]]\<rparr>"

definition missing_profit_frame :: frame where
  \<comment> \<open>Scenario B: no \<open>PROFIT\<close> column\<close>
  "missing_profit_frame =
     \<lparr>columns = [''NAME'', ''REVENUES'', ''EMPLOYEES'', ''STATE'', ''COUNTY''],
      rows = [mk_row [(''NAME'', S ''Acme''), (''REVENUES'', S ''$1,000.00''),
                      (''EMPLOYEES'', S ''1,000''), (''STATE'', S ''CA''),
                      (''COUNTY'', S ''Santa Clara'')]]\<rparr>"

definition unparseable_row :: row where
  "unparseable_row =
     mk_row [(''NAME'', S ''Beta''), (''REVENUES'', S ''abc''),
             (''PROFIT'', S ''-$50.00''), (''EMPLOYEES'', S ''500''),
             (''STATE'', S ''CA''), (''COUNTY'', S ''Santa Clara'')]"

definition unparseable_frame :: frame where
  "unparseable_frame = \<lparr>columns = all_columns, rows = [acme, unparseable_row]\<rparr>"

definition numeric_input_frame :: frame where
  \<comment> \<open>columns of plain numbers: \<open>1000\<close>, \<open>100.0\<close>, \<open>2.5\<close>\<close>
  "numeric_input_frame =
     \<lparr>columns = all_columns,
      rows = [mk_row [(''NAME'', S ''Acme''), (''REVENUES'', I 1000),
                      (''PROFIT'', F 100), (''EMPLOYEES'', F (5 / 2)),
                      (''STATE'', S ''CA''), (''COUNTY'', S ''Santa Clara'')]]\<rparr>"

definition missing_state_frame :: frame where
  \<comment> \<open>the second row has no state and no county\<close>
  "missing_state_frame =
     \<lparr>columns = all_columns,
      rows = [acme,
              mk_row [(''NAME'', S ''Gamma''), (''REVENUES'', S ''$300.00''),
                      (''PROFIT'', S ''$30.00''), (''EMPLOYEES'', S ''40''),
                      (''STATE'', NA), (''COUNTY'', NA)]]\<rparr>"

definition tied_frame :: frame where
  \<comment> \<open>two rows of equal revenue\<close>
  "tied_frame =
     \<lparr>columns = all_columns,
      rows = [mk_row [(''NAME'', S ''Acme''), (''REVENUES'', S ''$500.00''),
                      (''PROFIT'', S ''$100.00''), (''EMPLOYEES'', S ''1,000''),
                      (''STATE'', S ''CA''), (''COUNTY'', S ''Santa Clara'')],
              mk_row [(''NAME'', S ''Beta''), (''REVENUES'', S ''$500.00''),
                      (''PROFIT'', S ''-$50.00''), (''EMPLOYEES'', S ''500''),
                      (''STATE'', S ''CA''), (''COUNTY'', S ''Santa Clara'')]]\<rparr>"

definition zero_revenue_frame :: frame where
  \<comment> \<open>Scenario C: a row with revenue 0\<close>
  "zero_revenue_frame =
     \<lparr>columns = all_columns,
      rows = [acme,
              mk_row [(''NAME'', S ''Delta''), (''REVENUES'', S ''$0.00''),
                      (''PROFIT'', S ''-$50.00''), (''EMPLOYEES'', S ''500''),
                      (''STATE'', S ''CA''), (''COUNTY'', S ''Santa Clara'')]]\<rparr>"

section \<open>Properties of loading and cleaning\<close>

lemmas parse_simps = py_float_def py_int_def strip_def is_space_def lower_def digit_of_def
  floatnumber_def number_def nat_of_digits_def replace_char_def clean_money_def clean_count_def

lemmas frame_simps = mk_row_def acme_def all_columns_def required_columns_def dropna_def isna_def

lemma set_cell_apply: "set_cell c v r c' = (if c' = c then v else r c')"
  by (simp add: set_cell_def)

subsection \<open>A column conversion succeeds on all rows or raises\<close>

lemma apply_column_ok:
  "list_all (\<lambda>r. \<not> isl (f (r c))) rs \<Longrightarrow>
     apply_column c f rs = Inr (map (\<lambda>r. set_cell c (projr (f (r c))) r) rs)"
proof (induction rs)
  case Nil
  show ?case by simp
next
  case (Cons r rs)
  then obtain v where "f (r c) = Inr v" by (cases "f (r c)") auto
  with Cons show ?case by simp
qed

lemma apply_column_fail:
  "\<not> list_all (\<lambda>r. \<not> isl (f (r c))) rs \<Longrightarrow> isl (apply_column c f rs)"
  by (induction rs) (auto split: sum.splits)

lemma apply_column_exn:
  "apply_column c f rs = Inl e \<Longrightarrow> \<exists>r\<in>set rs. f (r c) = Inl e"
  by (induction rs) (auto split: sum.splits)

lemma py_float_exn: "py_float s = Inl e \<Longrightarrow> e = ValueError"
  by (auto simp: py_float_def Let_def split: prod.splits if_splits option.splits)

lemma py_int_exn: "py_int s = Inl e \<Longrightarrow> e = ValueError"
  by (auto simp: py_int_def split: prod.splits option.splits)

lemma clean_money_exn: "clean_money x = Inl e \<Longrightarrow> e = ValueError"
  by (cases x) (auto simp: clean_money_def dest: py_float_exn)

lemma clean_count_exn: "clean_count x = Inl e \<Longrightarrow> e = ValueError"
  by (cases x) (auto simp: clean_count_def dest: py_int_exn)

lemma apply_column_cases:
  assumes "\<And>x e. f x = Inl e \<Longrightarrow> e = ValueError"
  shows "apply_column c f rs =
     (if list_all (\<lambda>r. \<not> isl (f (r c))) rs
      then Inr (map (\<lambda>r. set_cell c (projr (f (r c))) r) rs) else Inl ValueError)"
proof (cases "list_all (\<lambda>r. \<not> isl (f (r c))) rs")
  case True
  then show ?thesis by (simp add: apply_column_ok)
next
  case False
  from apply_column_fail[OF this] obtain e where e: "apply_column c f rs = Inl e"
    by (cases "apply_column c f rs") auto
  from apply_column_exn[OF e] assms have "e = ValueError" by blast
  with e False show ?thesis by simp
qed

subsection \<open>\<open>load_data\<close>, row by row\<close>

lemma missing_columns_Nil:
  "filter (\<lambda>col. col \<notin> set (columns df)) required_columns = [] \<longleftrightarrow>
     set required_columns \<subseteq> set (columns df)"
  by (auto simp: filter_empty_conv)

lemma load_data_missing:
  assumes "\<not> set required_columns \<subseteq> set (columns df)"
  shows "load_data (Inr df) =
     Inr ([''Missing columns in the uploaded data: '' @
           join '', '' (filter (\<lambda>col. col \<notin> set (columns df)) required_columns)], df)"
  using assms unfolding load_data_def
  by (simp add: missing_columns_Nil Let_def)

lemma load_data_rowwise:
  assumes "set required_columns \<subseteq> set (columns df)"
  shows "load_data (Inr df) =
     (if list_all converts (rows (dropna [''REVENUES'', ''PROFIT'', ''EMPLOYEES''] df))
      then Inr ([], cleaned df) else Inl ValueError)"
proof -
  let ?rs = "rows (dropna [''REVENUES'', ''PROFIT'', ''EMPLOYEES''] df)"
  let ?g1 = "\<lambda>r. set_cell ''REVENUES'' (projr (clean_money (r ''REVENUES''))) r"
  let ?g2 = "\<lambda>r. set_cell ''PROFIT'' (projr (clean_money (r ''PROFIT''))) r"
  let ?g3 = "\<lambda>r. set_cell ''EMPLOYEES'' (projr (clean_count (r ''EMPLOYEES''))) r"
  have a1: "apply_column ''REVENUES'' clean_money ?rs =
        (if list_all (\<lambda>r. \<not> isl (clean_money (r ''REVENUES''))) ?rs
         then Inr (map ?g1 ?rs) else Inl ValueError)"
    by (rule apply_column_cases) (rule clean_money_exn)
  have a2: "apply_column ''PROFIT'' clean_money (map ?g1 ?rs) =
        (if list_all (\<lambda>r. \<not> isl (clean_money (r ''PROFIT''))) ?rs
         then Inr (map ?g2 (map ?g1 ?rs)) else Inl ValueError)"
    by (subst apply_column_cases[OF clean_money_exn]) (simp_all add: list_all_iff set_cell_apply)
  have a3: "apply_column ''EMPLOYEES'' clean_count (map ?g2 (map ?g1 ?rs)) =
        (if list_all (\<lambda>r. \<not> isl (clean_count (r ''EMPLOYEES''))) ?rs
         then Inr (map ?g3 (map ?g2 (map ?g1 ?rs))) else Inl ValueError)"
    by (subst apply_column_cases[OF clean_count_exn]) (simp_all add: list_all_iff set_cell_apply)
  have g: "map ?g3 (map ?g2 (map ?g1 ?rs)) = map clean_row ?rs"
    by (simp add: clean_row_def set_cell_apply)
  have c: "list_all converts ?rs \<longleftrightarrow>
      list_all (\<lambda>r. \<not> isl (clean_money (r ''REVENUES''))) ?rs \<and>
      list_all (\<lambda>r. \<not> isl (clean_money (r ''PROFIT''))) ?rs \<and>
      list_all (\<lambda>r. \<not> isl (clean_count (r ''EMPLOYEES''))) ?rs"
    by (auto simp: converts_def list_all_iff)
  have cols: "columns (dropna [''REVENUES'', ''PROFIT'', ''EMPLOYEES''] df) = columns df"
    by (simp add: dropna_def)
  have m: "filter (\<lambda>col. col \<notin> set (columns df)) required_columns = []"
    using assms by (simp add: missing_columns_Nil)
  show ?thesis
    unfolding load_data_def sum.case Let_def m cleaned_def
    by (simp only: a1 a2 a3 g c cols if_False simp_thms sum.case split: if_splits)
       (auto simp: cols)
qed

lemma load_data_cleaned:
  assumes "set required_columns \<subseteq> set (columns df)"
      and "list_all converts (rows (dropna [''REVENUES'', ''PROFIT'', ''EMPLOYEES''] df))"
  shows "load_data (Inr df) = Inr ([], cleaned df)"
  using assms(2) by (simp add: load_data_rowwise[OF assms(1)])

lemma dropna_rows:
  "r \<in> set (rows (dropna cols df)) \<longleftrightarrow> r \<in> set (rows df) \<and> (\<forall>c\<in>set cols. \<not> isna (r c))"
  by (auto simp: dropna_def list_all_iff)

subsection \<open>What a conversion returns\<close>

lemma clean_money_not_str: "\<not> is_str v \<Longrightarrow> clean_money v = Inr v"
  by (cases v) (simp_all add: clean_money_def is_str_def)

lemma clean_count_not_str: "\<not> is_str v \<Longrightarrow> clean_count v = Inr v"
  by (cases v) (simp_all add: clean_count_def is_str_def)

lemma py_float_is_float: "py_float s = Inr v \<Longrightarrow> is_float v"
  by (auto simp: py_float_def Let_def is_float_def split: prod.splits if_splits option.splits)

lemma py_int_is_int: "py_int s = Inr v \<Longrightarrow> is_int v"
  by (auto simp: py_int_def is_int_def split: prod.splits option.splits)

lemma clean_money_result:
  assumes "clean_money v = Inr v'"
  shows "\<not> is_str v' \<and> (is_str v \<longrightarrow> is_float v') \<and> (\<not> is_str v \<longrightarrow> v' = v)"
proof (cases "is_str v")
  case True
  then obtain s where "v = S s" by (cases v) (simp_all add: is_str_def)
  with assms have "is_float v'" by (auto simp: clean_money_def dest: py_float_is_float)
  then show ?thesis using True by (cases v') (simp_all add: is_float_def is_str_def)
next
  case False
  with assms show ?thesis by (simp add: clean_money_not_str)
qed

lemma clean_count_result:
  assumes "clean_count v = Inr v'"
  shows "\<not> is_str v' \<and> (is_str v \<longrightarrow> is_int v') \<and> (\<not> is_str v \<longrightarrow> v' = v)"
proof (cases "is_str v")
  case True
  then obtain s where "v = S s" by (cases v) (simp_all add: is_str_def)
  with assms have "is_int v'" by (auto simp: clean_count_def dest: py_int_is_int)
  then show ?thesis using True by (cases v') (simp_all add: is_int_def is_str_def)
next
  case False
  with assms show ?thesis by (simp add: clean_count_not_str)
qed

lemma clean_row_cells:
  "clean_row r ''REVENUES'' = projr (clean_money (r ''REVENUES''))"
  "clean_row r ''PROFIT'' = projr (clean_money (r ''PROFIT''))"
  "clean_row r ''EMPLOYEES'' = projr (clean_count (r ''EMPLOYEES''))"
  by (simp_all add: clean_row_def set_cell_apply)

lemma clean_row_other:
  "c \<notin> {''REVENUES'', ''PROFIT'', ''EMPLOYEES''} \<Longrightarrow> clean_row r c = r c"
  by (simp add: clean_row_def set_cell_apply)

lemma clean_row_fields:
  assumes "converts r"
      and "\<not> isna (r ''REVENUES'')" "\<not> isna (r ''PROFIT'')" "\<not> isna (r ''EMPLOYEES'')"
  shows "(\<forall>c\<in>{''REVENUES'', ''PROFIT''}.
            \<not> isna (r c) \<and> clean_money (r c) = Inr (clean_row r c) \<and> \<not> is_str (clean_row r c) \<and>
            (is_str (r c) \<longrightarrow> is_float (clean_row r c)) \<and>
            (\<not> is_str (r c) \<longrightarrow> clean_row r c = r c \<and> \<not> isna (clean_row r c))) \<and>
         \<not> isna (r ''EMPLOYEES'') \<and>
         clean_count (r ''EMPLOYEES'') = Inr (clean_row r ''EMPLOYEES'') \<and>
         \<not> is_str (clean_row r ''EMPLOYEES'') \<and>
         (is_str (r ''EMPLOYEES'') \<longrightarrow> is_int (clean_row r ''EMPLOYEES'')) \<and>
         (\<not> is_str (r ''EMPLOYEES'') \<longrightarrow>
            clean_row r ''EMPLOYEES'' = r ''EMPLOYEES'' \<and> \<not> isna (clean_row r ''EMPLOYEES''))"
proof -
  from assms(1) have e1: "clean_money (r ''REVENUES'') = Inr (clean_row r ''REVENUES'')"
    and e2: "clean_money (r ''PROFIT'') = Inr (clean_row r ''PROFIT'')"
    and e3: "clean_count (r ''EMPLOYEES'') = Inr (clean_row r ''EMPLOYEES'')"
    by (simp_all add: converts_def clean_row_cells)
  from clean_money_result[OF e1] clean_money_result[OF e2] clean_count_result[OF e3]
    assms(2-4) e1 e2 e3
  show ?thesis by simp
qed

subsection \<open>The example inputs, loaded\<close>

lemmas cell_simps = clean_row_cells clean_row_other mk_row_def acme_def parse_simps

lemma examples_present:
  "set required_columns \<subseteq> set (columns scenario_A)"
  "set required_columns \<subseteq> set (columns unparseable_frame)"
  "set required_columns \<subseteq> set (columns numeric_input_frame)"
  "set required_columns \<subseteq> set (columns missing_state_frame)"
  "set required_columns \<subseteq> set (columns tied_frame)"
  "set required_columns \<subseteq> set (columns zero_revenue_frame)"
  by (simp_all add: scenario_A_def unparseable_frame_def numeric_input_frame_def
      missing_state_frame_def tied_frame_def zero_revenue_frame_def frame_simps)

lemma examples_kept:
  "rows (dropna [''REVENUES'', ''PROFIT'', ''EMPLOYEES''] scenario_A) = rows scenario_A"
  "rows (dropna [''REVENUES'', ''PROFIT'', ''EMPLOYEES''] unparseable_frame) = rows unparseable_frame"
  "rows (dropna [''REVENUES'', ''PROFIT'', ''EMPLOYEES''] numeric_input_frame) = rows numeric_input_frame"
  "rows (dropna [''REVENUES'', ''PROFIT'', ''EMPLOYEES''] missing_state_frame) = rows missing_state_frame"
  "rows (dropna [''REVENUES'', ''PROFIT'', ''EMPLOYEES''] tied_frame) = rows tied_frame"
  "rows (dropna [''REVENUES'', ''PROFIT'', ''EMPLOYEES''] zero_revenue_frame) = rows zero_revenue_frame"
  by (simp_all add: scenario_A_def unparseable_frame_def unparseable_row_def numeric_input_frame_def
      missing_state_frame_def tied_frame_def zero_revenue_frame_def frame_simps)

lemma examples_convert:
  "list_all converts (rows scenario_A)"
  "list_all converts (rows numeric_input_frame)"
  "list_all converts (rows missing_state_frame)"
  "list_all converts (rows tied_frame)"
  "list_all converts (rows zero_revenue_frame)"
  by (simp_all add: scenario_A_def numeric_input_frame_def missing_state_frame_def tied_frame_def
      zero_revenue_frame_def converts_def mk_row_def acme_def parse_simps)

lemma examples_load:
  "load_data (Inr scenario_A) = Inr ([], cleaned scenario_A)"
  "load_data (Inr numeric_input_frame) = Inr ([], cleaned numeric_input_frame)"
  "load_data (Inr missing_state_frame) = Inr ([], cleaned missing_state_frame)"
  "load_data (Inr tied_frame) = Inr ([], cleaned tied_frame)"
  "load_data (Inr zero_revenue_frame) = Inr ([], cleaned zero_revenue_frame)"
  by (simp_all add: load_data_cleaned examples_present examples_kept examples_convert)

lemma examples_rows:
  "rows (cleaned scenario_A) = map clean_row (rows scenario_A)"
  "rows (cleaned numeric_input_frame) = map clean_row (rows numeric_input_frame)"
  "rows (cleaned missing_state_frame) = map clean_row (rows missing_state_frame)"
  "rows (cleaned tied_frame) = map clean_row (rows tied_frame)"
  "rows (cleaned zero_revenue_frame) = map clean_row (rows zero_revenue_frame)"
  by (simp_all add: cleaned_def examples_kept)

lemma cells_project: "map f xs = ys \<Longrightarrow> map (\<lambda>x. h (f x)) xs = map h ys"
  by auto

lemma scenario_A_cells:
  "map (\<lambda>r. (r ''NAME'', r ''STATE'', r ''REVENUES'', r ''PROFIT'', r ''EMPLOYEES''))
     (rows (cleaned scenario_A)) =
   [(S ''Acme'', S ''CA'', F 1000, F 100, I 1000), (S ''Beta'', S ''CA'', F 500, F (- 50), I 500)]"
  unfolding examples_rows by (simp add: scenario_A_def cell_simps)

lemma numeric_input_cells:
  "map (\<lambda>r. (r ''NAME'', r ''STATE'', r ''REVENUES'', r ''PROFIT'', r ''EMPLOYEES''))
     (rows (cleaned numeric_input_frame)) =
   [(S ''Acme'', S ''CA'', I 1000, F 100, F (5 / 2))]"
  unfolding examples_rows by (simp add: numeric_input_frame_def cell_simps)

lemma missing_state_cells:
  "map (\<lambda>r. (r ''NAME'', r ''STATE'', r ''REVENUES'', r ''PROFIT'', r ''EMPLOYEES''))
     (rows (cleaned missing_state_frame)) =
   [(S ''Acme'', S ''CA'', F 1000, F 100, I 1000), (S ''Gamma'', NA, F 300, F 30, I 40)]"
  unfolding examples_rows by (simp add: missing_state_frame_def cell_simps)


lemma zero_revenue_cells:
  "map (\<lambda>r. (r ''NAME'', r ''STATE'', r ''REVENUES'', r ''PROFIT'', r ''EMPLOYEES''))
     (rows (cleaned zero_revenue_frame)) =
   [(S ''Acme'', S ''CA'', F 1000, F 100, I 1000), (S ''Delta'', S ''CA'', F 0, F (- 50), I 500)]"
  unfolding examples_rows by (simp add: zero_revenue_frame_def cell_simps)

subsection \<open>The claims about \<open>load_data\<close>\<close>

text \<open>
  Claim C1. A parsed input that lacks a required column makes \<open>load_data\<close> report the
  missing names, joined by a comma and a blank, and do no cleaning. The claim adds that no
  Table is produced and no aggregation runs. On the input of Scenario B with one row,
  \<open>load_data\<close> returns the parsed frame itself, untouched; the frame is not empty, so
  the script takes the aggregation branch with it. The read-error path returns the empty
  frame and reaches the "no data" branch, whose message names missing columns: the
  missing-column path returns \<open>df\<close> where the empty frame was meant.
\<close>

theorem missing_column_still_aggregates:
  "load_data (Inr missing_profit_frame) =
     Inr ([''Missing columns in the uploaded data: PROFIT''], missing_profit_frame) \<and>
   \<not> df_empty missing_profit_frame \<and>
   main srt (Some (Inr missing_profit_frame)) top_x state =
     Dashboard [''Missing columns in the uploaded data: PROFIT'']
       (fst (aggregation_pass srt 0 top_x state [missing_profit_frame]))"
proof -
  have l: "load_data (Inr missing_profit_frame) =
     Inr ([''Missing columns in the uploaded data: PROFIT''], missing_profit_frame)"
    by (simp add: load_data_def missing_profit_frame_def required_columns_def)
  have e: "\<not> df_empty missing_profit_frame"
    by (simp add: df_empty_def missing_profit_frame_def)
  show ?thesis using l e by (simp add: main_def)
qed

text \<open>
  Claim C2, as stated: every row of the returned Table has a float revenue, a float profit
  and an integer employee count. It fails on columns that \<open>read_csv\<close> already read as
  numbers: such cells are not text, the lambdas pass them through, and the integer revenue
  \<open>1000\<close> stays an integer while the employee count \<open>2.5\<close> stays a float.
\<close>

theorem numeric_input_passes_through:
  "set required_columns \<subseteq> set (columns numeric_input_frame) \<and>
   load_data (Inr numeric_input_frame) = Inr ([], cleaned numeric_input_frame) \<and>
   map (\<lambda>r. (r ''REVENUES'', r ''PROFIT'', r ''EMPLOYEES'')) (rows (cleaned numeric_input_frame)) =
     [(I 1000, F 100, F (5 / 2))] \<and>
   \<not> is_float (I 1000) \<and> \<not> is_int (F (5 / 2))"
proof -
  from cells_project[OF numeric_input_cells, of "\<lambda>(n, s, r, p, e). (r, p, e)"]
  have "map (\<lambda>r. (r ''REVENUES'', r ''PROFIT'', r ''EMPLOYEES'')) (rows (cleaned numeric_input_frame)) =
     [(I 1000, F 100, F (5 / 2))]"
    by simp
  then show ?thesis
    by (simp add: examples_present examples_load is_float_def is_int_def)
qed

text \<open>
  Claim C2, amended. When all required columns are present and \<open>load_data\<close> returns, the
  rows of the returned frame are the rows that passed the missing-value filter, in order,
  each with its revenue, profit and employee count cleaned: none of the three was missing
  in the input, none is text in the output, a cell that was text holds what \<open>float\<close>
  (revenue, profit) or \<open>int\<close> (employee count) returned for it, and a cell that was not
  text is unchanged, whatever its numeric type, and not missing.
\<close>

theorem load_data_numeric_fields:
  assumes "set required_columns \<subseteq> set (columns df)"
      and "load_data (Inr df) = Inr (errs, out)"
  shows "list_all2
           (\<lambda>r r'.
              (\<forall>c\<in>{''REVENUES'', ''PROFIT''}.
                 \<not> isna (r c) \<and> clean_money (r c) = Inr (r' c) \<and> \<not> is_str (r' c) \<and>
                 (is_str (r c) \<longrightarrow> is_float (r' c)) \<and>
                 (\<not> is_str (r c) \<longrightarrow> r' c = r c \<and> \<not> isna (r' c))) \<and>
              \<not> isna (r ''EMPLOYEES'') \<and>
              clean_count (r ''EMPLOYEES'') = Inr (r' ''EMPLOYEES'') \<and>
              \<not> is_str (r' ''EMPLOYEES'') \<and>
              (is_str (r ''EMPLOYEES'') \<longrightarrow> is_int (r' ''EMPLOYEES'')) \<and>
              (\<not> is_str (r ''EMPLOYEES'') \<longrightarrow>
                 r' ''EMPLOYEES'' = r ''EMPLOYEES'' \<and> \<not> isna (r' ''EMPLOYEES'')))
           (rows (dropna [''REVENUES'', ''PROFIT'', ''EMPLOYEES''] df)) (rows out)"
proof -
  let ?rs = "rows (dropna [''REVENUES'', ''PROFIT'', ''EMPLOYEES''] df)"
  from assms have conv: "list_all converts ?rs" and out: "rows out = map clean_row ?rs"
    by (auto simp: load_data_rowwise cleaned_def split: if_splits)
  have "\<forall>r\<in>set ?rs. converts r \<and> \<not> isna (r ''REVENUES'') \<and> \<not> isna (r ''PROFIT'') \<and>
          \<not> isna (r ''EMPLOYEES'')"
    using conv by (simp add: list_all_iff dropna_rows)
  then show ?thesis
    unfolding out list_all2_map2
    by (intro list_all2_same[THEN iffD2] ballI clean_row_fields) simp_all
qed

theorem load_data_numeric_fields_witness:
  "set required_columns \<subseteq> set (columns scenario_A) \<and>
   load_data (Inr scenario_A) = Inr ([], cleaned scenario_A) \<and>
   map (\<lambda>r. (r ''REVENUES'', r ''PROFIT'', r ''EMPLOYEES'')) (rows (cleaned scenario_A)) =
     [(F 1000, F 100, I 1000), (F 500, F (- 50), I 500)] \<and>
   list_all2
     (\<lambda>r r'.
        (\<forall>c\<in>{''REVENUES'', ''PROFIT''}.
           \<not> isna (r c) \<and> clean_money (r c) = Inr (r' c) \<and> \<not> is_str (r' c) \<and>
           (is_str (r c) \<longrightarrow> is_float (r' c)) \<and>
                 (\<not> is_str (r c) \<longrightarrow> r' c = r c \<and> \<not> isna (r' c))) \<and>
        \<not> isna (r ''EMPLOYEES'') \<and>
        clean_count (r ''EMPLOYEES'') = Inr (r' ''EMPLOYEES'') \<and>
        \<not> is_str (r' ''EMPLOYEES'') \<and>
        (is_str (r ''EMPLOYEES'') \<longrightarrow> is_int (r' ''EMPLOYEES'')) \<and>
        (\<not> is_str (r ''EMPLOYEES'') \<longrightarrow>
                 r' ''EMPLOYEES'' = r ''EMPLOYEES'' \<and> \<not> isna (r' ''EMPLOYEES'')))
     (rows (dropna [''REVENUES'', ''PROFIT'', ''EMPLOYEES''] scenario_A))
     (rows (cleaned scenario_A))"
proof -
  from cells_project[OF scenario_A_cells, of "\<lambda>(n, s, r, p, e). (r, p, e)"]
  have v: "map (\<lambda>r. (r ''REVENUES'', r ''PROFIT'', r ''EMPLOYEES'')) (rows (cleaned scenario_A)) =
     [(F 1000, F 100, I 1000), (F 500, F (- 50), I 500)]"
    by simp
  from load_data_numeric_fields[OF examples_present(1) examples_load(1)]
    examples_present(1) examples_load(1) v
  show ?thesis by simp
qed

text \<open>
  Claim C7, as stated: a row that survives the missing-value filter and has a revenue,
  profit or employee text that is no number is left out of the Table, and nothing is
  raised past \<open>load_data\<close>. The source has no guard around the conversions: the second
  row of this input survives the filter, its revenue \<open>abc\<close> makes \<open>float\<close> raise, and
  \<open>load_data\<close> ends with that \<open>ValueError\<close> and returns no frame.
\<close>

theorem unparseable_revenue_raises:
  "length (rows (dropna [''REVENUES'', ''PROFIT'', ''EMPLOYEES''] unparseable_frame)) = 2 \<and>
   unparseable_row ''REVENUES'' = S ''abc'' \<and>
   load_data (Inr unparseable_frame) = Inl ValueError"
proof -
  have "\<not> converts unparseable_row"
    by (simp add: converts_def unparseable_row_def mk_row_def parse_simps)
  then have "load_data (Inr unparseable_frame) = Inl ValueError"
    by (simp add: load_data_rowwise[OF examples_present(2)] examples_kept)
       (simp add: unparseable_frame_def)
  then show ?thesis
    by (simp add: examples_kept) (simp add: unparseable_frame_def unparseable_row_def mk_row_def)
qed

text \<open>
  Claim C7, amended. When all required columns are present and some row that survives
  the missing-value filter has a revenue or profit text that \<open>float\<close> rejects, or an
  employee text that \<open>int\<close> rejects, \<open>load_data\<close> excludes nothing: it raises
  \<open>ValueError\<close> past its boundary and returns no Table.
\<close>

theorem unparseable_row_raises:
  assumes "set required_columns \<subseteq> set (columns df)"
      and "r \<in> set (rows (dropna [''REVENUES'', ''PROFIT'', ''EMPLOYEES''] df))"
      and "isl (clean_money (r ''REVENUES'')) \<or> isl (clean_money (r ''PROFIT'')) \<or>
           isl (clean_count (r ''EMPLOYEES''))"
    shows "load_data (Inr df) = Inl ValueError"
proof -
  from assms(3) have "\<not> converts r" by (auto simp: converts_def)
  with assms(2)
  have "\<not> list_all converts (rows (dropna [''REVENUES'', ''PROFIT'', ''EMPLOYEES''] df))"
    by (auto simp: list_all_iff)
  then show ?thesis by (simp add: load_data_rowwise[OF assms(1)])
qed

theorem unparseable_row_raises_witness:
  "set required_columns \<subseteq> set (columns unparseable_frame) \<and>
   unparseable_row \<in>
     set (rows (dropna [''REVENUES'', ''PROFIT'', ''EMPLOYEES''] unparseable_frame)) \<and>
   isl (clean_money (unparseable_row ''REVENUES'')) \<and>
   load_data (Inr unparseable_frame) = Inl ValueError"
proof -
  note a = examples_present(2)
  have b: "unparseable_row \<in>
      set (rows (dropna [''REVENUES'', ''PROFIT'', ''EMPLOYEES''] unparseable_frame))"
    by (simp add: examples_kept) (simp add: unparseable_frame_def)
  have c: "isl (clean_money (unparseable_row ''REVENUES''))"
    by (simp add: unparseable_row_def mk_row_def parse_simps)
  from unparseable_row_raises[OF a b] c a b show ?thesis by simp
qed

section \<open>Properties of the aggregations\<close>

subsection \<open>Numeric columns\<close>

lemma those_eq_Some: "those xs = Some ys \<longleftrightarrow> xs = map Some ys"
proof (induction xs arbitrary: ys)
  case Nil
  show ?case by auto
next
  case (Cons x xs)
  show ?case
  proof (cases x)
    case None
    then show ?thesis by auto
  next
    case (Some a)
    with Cons show ?thesis by (cases ys) (auto split: option.splits)
  qed
qed

lemma column_values_Some:
  "column_values c df = Some ks \<longleftrightarrow> map (\<lambda>r. num (r c)) (rows df) = map Some ks"
  by (simp add: column_values_def those_eq_Some)

lemma column_values_length:
  "column_values c df = Some ks \<Longrightarrow> length ks = length (rows df)"
  by (auto simp: column_values_Some dest: map_eq_imp_length_eq)

lemma column_values_no_rows: "rows df = [] \<Longrightarrow> column_values c df = Some []"
  by (simp add: column_values_def)

lemma column_values_map:
  "column_values c df = Some ks \<longleftrightarrow>
     list_all (\<lambda>r. num (r c) \<noteq> None) (rows df) \<and> ks = map (\<lambda>r. the (num (r c))) (rows df)"
proof -
  have "map (\<lambda>r. num (r c)) rs = map Some ks \<longleftrightarrow>
        list_all (\<lambda>r. num (r c) \<noteq> None) rs \<and> ks = map (\<lambda>r. the (num (r c))) rs" for rs
  proof (induction rs arbitrary: ks)
    case Nil
    show ?case by auto
  next
    case (Cons r rs)
    show ?case by (cases ks) (auto simp: Cons.IH)
  qed
  then show ?thesis by (simp add: column_values_Some)
qed


lemma zip_column_values:
  assumes "column_values c df = Some ks"
  shows "zip (map f (rows df)) ks = map (\<lambda>r. (f r, the (num (r c)))) (rows df)"
  using assms by (simp add: column_values_map zip_map_map zip_same_conv_map)

lemma column_values_filter:
  assumes "column_values c df = Some ks"
  shows "column_values c (df\<lparr>rows := filter P (rows df)\<rparr>) =
           Some (map (\<lambda>r. the (num (r c))) (filter P (rows df)))"
  using assms by (simp add: column_values_map list_all_iff)

lemma column_values_set_other:
  assumes "c' \<noteq> c"
  shows "column_values c (df\<lparr>rows := map (\<lambda>r. set_cell c' (g r) r) (rows df)\<rparr>) =
         column_values c df"
  using assms by (simp add: column_values_def comp_def set_cell_apply)

lemma column_values_cells:
  "map (\<lambda>r. r c) (rows df) = cs \<Longrightarrow> map num cs = map Some ks \<Longrightarrow>
     column_values c df = Some ks"
  by (auto simp: column_values_Some comp_def)

lemma nth_cells: "map f xs = ys \<Longrightarrow> i < length ys \<Longrightarrow> f (xs ! i) = ys ! i"
  by auto

subsection \<open>The margin lambda\<close>

lemma profit_margin_value:
  "profit_margin p v = Inr (if v = 0 then 0 else p / v * 100)"
  by (simp add: profit_margin_def py_truediv_def)

lemma apply_rows_margins:
  "apply_rows (map (\<lambda>(p, v). profit_margin p v) zs) =
     Inr (map (\<lambda>(p, v). if v = 0 then 0 else p / v * 100) zs)"
  by (induction zs) (simp_all add: profit_margin_value split_def)

lemma profit_margins_value:
  assumes "column_values ''PROFIT'' sd = Some ps"
      and "column_values ''REVENUES'' sd = Some vs"
  shows "profit_margins sd =
           Some (Inr (map (\<lambda>(p, v). if v = 0 then 0 else p / v * 100) (zip ps vs)))"
  using assms by (simp add: profit_margins_def apply_rows_margins)

subsection \<open>Groups\<close>

lemma foldl_group_add:
  "foldl group_add g kvs k =
     (if isna k \<or> k \<notin> fst ` set kvs then g k
      else Some ((case g k of None \<Rightarrow> [] | Some vs \<Rightarrow> vs) @
                 map snd (filter (\<lambda>kv. fst kv = k) kvs)))"
proof (induction kvs arbitrary: g)
  case Nil
  show ?case by simp
next
  case (Cons kv kvs)
  obtain k' v where kv: "kv = (k', v)" by (cases kv)
  show ?case
    unfolding kv foldl_Cons Cons.IH
    by (auto simp: group_add_def image_iff filter_empty_conv split: option.splits)
qed

lemma groupby_lookup:
  "groupby keys vals k =
     (if isna k \<or> k \<notin> fst ` set (zip keys vals) then None
      else Some (map snd (filter (\<lambda>kv. fst kv = k) (zip keys vals))))"
  by (simp add: groupby_def foldl_group_add)

lemma foldl_group_add_dropna:
  "foldl group_add g (filter (\<lambda>kv. \<not> isna (fst kv)) kvs) = foldl group_add g kvs"
  by (induction kvs arbitrary: g) (auto simp: group_add_def)

lemma sum_groups:
  assumes "finite K"
  shows "(\<Sum>k\<in>K. sum_list (map snd (filter (\<lambda>kv. fst kv = k) kvs))) =
         sum_list (map snd (filter (\<lambda>kv. fst kv \<in> K) kvs))"
proof (induction kvs)
  case Nil
  show ?case by simp
next
  case (Cons kv kvs)
  have "(\<Sum>k\<in>K. sum_list (map snd (filter (\<lambda>kv. fst kv = k) (kv # kvs)))) =
        (\<Sum>k\<in>K. (if fst kv = k then snd kv else 0) +
                  sum_list (map snd (filter (\<lambda>kv. fst kv = k) kvs)))"
    by (intro sum.cong) auto
  also have "\<dots> = (\<Sum>k\<in>K. if fst kv = k then snd kv else 0) +
        (\<Sum>k\<in>K. sum_list (map snd (filter (\<lambda>kv. fst kv = k) kvs)))"
    by (rule sum.distrib)
  also have "(\<Sum>k\<in>K. if fst kv = k then snd kv else 0) = (if fst kv \<in> K then snd kv else 0)"
    using assms by (simp add: sum.delta')
  finally show ?case by (simp add: Cons.IH)
qed

lemma state_revenue_dict_lookup:
  assumes "column_values ''REVENUES'' df = Some ks"
  shows "state_revenue_dict df =
     Some (\<lambda>k. if isna k \<or> k \<notin> (\<lambda>r. r ''STATE'') ` set (rows df) then None
               else Some (sum_list (map (\<lambda>r. the (num (r ''REVENUES'')))
                                        (filter (\<lambda>r. r ''STATE'' = k) (rows df)))))"
proof -
  have z: "zip (map (\<lambda>r. r ''STATE'') (rows df)) ks =
           map (\<lambda>r. (r ''STATE'', the (num (r ''REVENUES'')))) (rows df)"
    by (rule zip_column_values[OF assms])
  show ?thesis
    unfolding state_revenue_dict_def assms option.map groupby_lookup z
    by (auto simp: fun_eq_iff image_iff filter_map comp_def)
qed

lemma pivot_table_lookup:
  assumes "column_values ''REVENUES'' df = Some ks"
  shows "pivot_table df =
     Some (\<lambda>k. if isna k \<or> k \<notin> (\<lambda>r. r ''STATE'') ` set (rows df) then None
               else Some (mean (map (\<lambda>r. the (num (r ''REVENUES'')))
                                    (filter (\<lambda>r. r ''STATE'' = k) (rows df)))))"
proof -
  have z: "zip (map (\<lambda>r. r ''STATE'') (rows df)) ks =
           map (\<lambda>r. (r ''STATE'', the (num (r ''REVENUES'')))) (rows df)"
    by (rule zip_column_values[OF assms])
  show ?thesis
    unfolding pivot_table_def assms option.map groupby_lookup z
    by (auto simp: fun_eq_iff image_iff filter_map comp_def)
qed

lemma groupby_dropna:
  assumes "column_values ''REVENUES'' df = Some ks"
  shows "groupby (map (\<lambda>r. r ''STATE'') (filter (\<lambda>r. \<not> isna (r ''STATE'')) (rows df)))
           (map (\<lambda>r. the (num (r ''REVENUES''))) (filter (\<lambda>r. \<not> isna (r ''STATE'')) (rows df))) =
         groupby (map (\<lambda>r. r ''STATE'') (rows df)) ks"
proof -
  let ?h = "\<lambda>r. (r ''STATE'', the (num (r ''REVENUES'')))"
  have "zip (map (\<lambda>r. r ''STATE'') (filter (\<lambda>r. \<not> isna (r ''STATE'')) (rows df)))
            (map (\<lambda>r. the (num (r ''REVENUES''))) (filter (\<lambda>r. \<not> isna (r ''STATE'')) (rows df))) =
        filter (\<lambda>kv. \<not> isna (fst kv)) (map ?h (rows df))"
    by (simp add: zip_map_map zip_same_conv_map filter_map comp_def)
  then show ?thesis
    unfolding groupby_def zip_column_values[OF assms]
    by (simp only: foldl_group_add_dropna)
qed

subsection \<open>Sorts that meet the contract\<close>

lemma sorter_positions:
  assumes "sorts_descending srt"
  shows "distinct (srt ks)" "set (srt ks) = {..<length ks}"
        "sorted_wrt (\<ge>) (map ((!) ks) (srt ks))" "length (srt ks) = length ks"
proof -
  from assms show d: "distinct (srt ks)" and s: "set (srt ks) = {..<length ks}"
    and "sorted_wrt (\<ge>) (map ((!) ks) (srt ks))"
    by (simp_all add: sorts_descending_def)
  from distinct_card[OF d] s show "length (srt ks) = length ks" by simp
qed

lemma stable_sorter_sorts: "sorts_descending stable_sorter"
proof -
  have "sorted_wrt (\<ge>) (map ((!) ks) (stable_sorter ks))" for ks :: "real list"
  proof -
    have "sorted (map (\<lambda>i. - ks ! i) (stable_sorter ks))"
      unfolding stable_sorter_def by (rule sorted_sort_key)
    then show ?thesis by (simp add: sorted_wrt_map)
  qed
  then show ?thesis
    by (auto simp: sorts_descending_def stable_sorter_def)
qed


text \<open>Two keys in descending order leave a sort no choice.\<close>

lemma sorter_two:
  assumes "sorts_descending srt" and "y < x"
  shows "srt [x, y] = [0, 1]"
proof -
  note sp = sorter_positions[OF assms(1), of "[x, y]"]
  from sp(4) have "length (srt [x, y]) = Suc (Suc 0)" by simp
  then obtain a b where p: "srt [x, y] = [a, b]"
    by (auto simp: length_Suc_conv)
  from sp(1) p have ne: "a \<noteq> b" by simp
  have "a \<in> set (srt [x, y])" "b \<in> set (srt [x, y])" by (simp_all add: p)
  then have lt: "a < 2" "b < 2" unfolding sp(2) by simp_all
  from sp(3) have le: "[x, y] ! b \<le> [x, y] ! a" unfolding p by simp
  show ?thesis
  proof (cases "a = 0")
    case True
    with ne lt have "b = 1" by arith
    with True p show ?thesis by simp
  next
    case False
    with lt have a1: "a = 1" by arith
    with ne lt have "b = 0" by arith
    with a1 le assms(2) show ?thesis by simp
  qed
qed

lemma top_positions_in_range:
  assumes "sorts_descending srt" and "i \<in> set (take top_x (srt ks))"
  shows "i < length ks"
  using assms(2) sorter_positions(2)[OF assms(1), of ks] by (auto dest: in_set_takeD)

subsection \<open>A pass over the store\<close>

lemma pass_keeps_frames:
  "take (length st) (snd (aggregation_pass srt a top_x state st)) = st"
  by (simp add: aggregation_pass_def new_frame_def setitem_def Let_def
      split: option.splits sum.splits prod.splits)

lemma pass_grows:
  "length st \<le> length (snd (aggregation_pass srt a top_x state st))"
  by (simp add: aggregation_pass_def new_frame_def setitem_def Let_def
      split: option.splits sum.splits prod.splits)

lemma run_passes_keeps_frames:
  "take (length st) (run_passes srt a ps st) = st"
proof (induction ps arbitrary: st)
  case Nil
  show ?case by simp
next
  case (Cons p ps)
  obtain top_x state where p: "p = (top_x, state)" by (cases p)
  let ?st1 = "snd (aggregation_pass srt a top_x state st)"
  have k: "take (length st) ?st1 = st" by (rule pass_keeps_frames)
  have le: "length st \<le> length ?st1" by (rule pass_grows)
  have "take (length st) (run_passes srt a ps ?st1) =
        take (length st) (take (length ?st1) (run_passes srt a ps ?st1))"
    using le by (simp add: min_def)
  also have "\<dots> = take (length st) ?st1" by (simp only: Cons.IH)
  finally show ?case using k p by simp
qed

lemma aggregation_pass_Inr:
  assumes "a < length st"
      and "aggregation_pass srt a top_x state st = (Some (Inr res), st')"
  shows "\<exists>ms. profit_margins (state_data state (st ! a)) = Some (Inr ms) \<and>
              st' = setitem (length st) ''PROFIT_MARGIN'' (map F ms)
                      (st @ [state_data state (st ! a)]) \<and>
              res_state_data res = length st"
proof -
  let ?df = "st ! a"
  let ?sd = "state_data state ?df"
  let ?st1 = "st @ [?sd]"
  have b: "?st1 ! length st = ?sd" by simp
  obtain d where d: "state_revenue_dict ?df = Some d"
    using assms by (cases "state_revenue_dict ?df") (simp_all add: aggregation_pass_def)
  obtain tc where tc: "top_companies srt top_x ?df = Some tc"
    using assms d by (cases "top_companies srt top_x ?df") (simp_all add: aggregation_pass_def)
  obtain pv where pv: "pivot_table ?df = Some pv"
    using assms d tc by (cases "pivot_table ?df") (simp_all add: aggregation_pass_def)
  have step: "aggregation_pass srt a top_x state st =
     (case profit_margins ?sd of
        None \<Rightarrow> (None, ?st1)
      | Some (Inl e) \<Rightarrow> (Some (Inl e), ?st1)
      | Some (Inr ms) \<Rightarrow>
          let st2 = setitem (length st) ''PROFIT_MARGIN'' (map F ms) ?st1 in
          (case (column_values ''PROFIT_MARGIN'' (st2 ! length st),
                 column_values ''EMPLOYEES'' (st2 ! length st)) of
             (Some ms', Some es) \<Rightarrow>
               (Some (Inr \<lparr>res_state_revenue_dict = d,
                           res_top_companies = tc,
                           res_total_revenue = total_revenue tc,
                           res_pivot_table = pv,
                           res_state_data = length st,
                           res_avg_profit_margin = mean ms',
                           res_avg_employees = mean es\<rparr>), st2)
           | _ \<Rightarrow> (None, st2)))"
    using assms(1) by (simp add: aggregation_pass_def d tc pv new_frame_def b Let_def)
  obtain ms where ms: "profit_margins ?sd = Some (Inr ms)"
  proof (cases "profit_margins ?sd")
    case None
    with step assms(2) show ?thesis by simp
  next
    case (Some x)
    with step assms(2) that show ?thesis by (cases x) simp_all
  qed
  let ?st2 = "setitem (length st) ''PROFIT_MARGIN'' (map F ms) ?st1"
  from step ms assms(2)
  have "st' = ?st2 \<and> res_state_data res = length st"
    by (cases "column_values ''PROFIT_MARGIN'' (?st2 ! length st)";
        cases "column_values ''EMPLOYEES'' (?st2 ! length st)") (auto simp: Let_def)
  with ms show ?thesis by blast
qed

lemma pass_margin_column:
  assumes "a < length st"
      and "aggregation_pass srt a top_x state st = (Some (Inr res), st')"
  shows "res_state_data res = length st \<and>
         ''PROFIT_MARGIN'' \<in> set (columns (st' ! length st))"
proof -
  from aggregation_pass_Inr[OF assms] obtain ms
    where "st' = setitem (length st) ''PROFIT_MARGIN'' (map F ms) (st @ [state_data state (st ! a)])"
      and "res_state_data res = length st" by blast
  then show ?thesis by (simp add: setitem_def set_column_def)
qed

subsection \<open>A selection without rows\<close>

lemma py_eq_NA: "\<not> py_eq x NA"
  by (cases x) (simp_all add: py_eq_def num_def isna_def)

lemma state_data_no_rows:
  "list_all (\<lambda>r. \<not> py_eq (r ''STATE'') state) (rows df) \<Longrightarrow> rows (state_data state df) = []"
  by (simp add: state_data_def filter_empty_conv list_all_iff)

lemma aggregates_defined:
  assumes "column_values ''REVENUES'' df = Some ks"
  shows "\<exists>d tc pv. state_revenue_dict df = Some d \<and> top_companies srt top_x df = Some tc \<and>
           pivot_table df = Some pv"
  by (simp add: state_revenue_dict_def top_companies_def pivot_table_def assms)

lemma pass_on_empty_selection:
  assumes "a < length st"
      and "column_values ''REVENUES'' (st ! a) = Some ks"
      and "list_all (\<lambda>r. \<not> py_eq (r ''STATE'') state) (rows (st ! a))"
  shows "\<exists>res. fst (aggregation_pass srt a top_x state st) = Some (Inr res) \<and>
           res_avg_profit_margin res = NA \<and> res_avg_employees res = NA"
proof -
  from aggregates_defined[OF assms(2), of srt top_x] obtain d tc pv
    where ag: "state_revenue_dict (st ! a) = Some d" "top_companies srt top_x (st ! a) = Some tc"
      "pivot_table (st ! a) = Some pv" by blast
  let ?sd = "state_data state (st ! a)"
  have e: "rows ?sd = []" by (rule state_data_no_rows[OF assms(3)])
  have pm: "profit_margins ?sd = Some (Inr [])"
    by (simp add: profit_margins_def column_values_no_rows[OF e])
  have st2: "setitem (length st) ''PROFIT_MARGIN'' [] (st @ [?sd]) ! length st =
             set_column ''PROFIT_MARGIN'' [] ?sd"
    by (simp add: setitem_def)
  have r2: "rows (set_column ''PROFIT_MARGIN'' [] ?sd) = []"
    by (simp add: set_column_def)
  show ?thesis
    using assms(1) ag pm
    by (simp add: aggregation_pass_def new_frame_def st2 column_values_no_rows[OF r2] mean_def)
qed

subsection \<open>The numeric columns of the examples\<close>

lemma scenario_A_columns:
  "column_values ''REVENUES'' (cleaned scenario_A) = Some [1000, 500]"
  "column_values ''PROFIT'' (cleaned scenario_A) = Some [100, - 50]"
  "column_values ''EMPLOYEES'' (cleaned scenario_A) = Some [1000, 500]"
  "map (\<lambda>r. r ''STATE'') (rows (cleaned scenario_A)) = [S ''CA'', S ''CA'']"
  "map (\<lambda>r. r ''NAME'') (rows (cleaned scenario_A)) = [S ''Acme'', S ''Beta'']"
proof -
  from cells_project[OF scenario_A_cells, of "\<lambda>(n, s, r, p, e). r"]
  show "column_values ''REVENUES'' (cleaned scenario_A) = Some [1000, 500]"
    by (intro column_values_cells[where cs = "[F 1000, F 500]"]) (simp_all add: num_def)
  from cells_project[OF scenario_A_cells, of "\<lambda>(n, s, r, p, e). p"]
  show "column_values ''PROFIT'' (cleaned scenario_A) = Some [100, - 50]"
    by (intro column_values_cells[where cs = "[F 100, F (- 50)]"]) (simp_all add: num_def)
  from cells_project[OF scenario_A_cells, of "\<lambda>(n, s, r, p, e). e"]
  show "column_values ''EMPLOYEES'' (cleaned scenario_A) = Some [1000, 500]"
    by (intro column_values_cells[where cs = "[I 1000, I 500]"]) (simp_all add: num_def)
  from cells_project[OF scenario_A_cells, of "\<lambda>(n, s, r, p, e). s"]
  show "map (\<lambda>r. r ''STATE'') (rows (cleaned scenario_A)) = [S ''CA'', S ''CA'']" by simp
  from cells_project[OF scenario_A_cells, of "\<lambda>(n, s, r, p, e). n"]
  show "map (\<lambda>r. r ''NAME'') (rows (cleaned scenario_A)) = [S ''Acme'', S ''Beta'']" by simp
qed

lemma missing_state_columns:
  "column_values ''REVENUES'' (cleaned missing_state_frame) = Some [1000, 300]"
  "map (\<lambda>r. r ''STATE'') (rows (cleaned missing_state_frame)) = [S ''CA'', NA]"
proof -
  from cells_project[OF missing_state_cells, of "\<lambda>(n, s, r, p, e). r"]
  show "column_values ''REVENUES'' (cleaned missing_state_frame) = Some [1000, 300]"
    by (intro column_values_cells[where cs = "[F 1000, F 300]"]) (simp_all add: num_def)
  from cells_project[OF missing_state_cells, of "\<lambda>(n, s, r, p, e). s"]
  show "map (\<lambda>r. r ''STATE'') (rows (cleaned missing_state_frame)) = [S ''CA'', NA]" by simp
qed


lemma zero_revenue_columns:
  "column_values ''REVENUES'' (cleaned zero_revenue_frame) = Some [1000, 0]"
  "column_values ''PROFIT'' (cleaned zero_revenue_frame) = Some [100, - 50]"
proof -
  from cells_project[OF zero_revenue_cells, of "\<lambda>(n, s, r, p, e). r"]
  show "column_values ''REVENUES'' (cleaned zero_revenue_frame) = Some [1000, 0]"
    by (intro column_values_cells[where cs = "[F 1000, F 0]"]) (simp_all add: num_def)
  from cells_project[OF zero_revenue_cells, of "\<lambda>(n, s, r, p, e). p"]
  show "column_values ''PROFIT'' (cleaned zero_revenue_frame) = Some [100, - 50]"
    by (intro column_values_cells[where cs = "[F 100, F (- 50)]"]) (simp_all add: num_def)
qed

subsection \<open>Scenario A, one pass\<close>

lemma scenario_A_pass:
  assumes "sorts_descending srt"
  shows "aggregation_pass srt 0 1 (S ''CA'') [cleaned scenario_A] =
     (Some (Inr \<lparr>res_state_revenue_dict = [S ''CA'' \<mapsto> 1500],
                  res_top_companies = [(0, S ''Acme'', 1000)],
                  res_total_revenue = 1000,
                  res_pivot_table = [S ''CA'' \<mapsto> F 750],
                  res_state_data = 1,
                  res_avg_profit_margin = F 0,
                  res_avg_employees = F 750\<rparr>),
      [cleaned scenario_A,
       set_column ''PROFIT_MARGIN'' [F 10, F (- 10)] (cleaned scenario_A)])"
proof -
  let ?df = "cleaned scenario_A"
  note cvr = scenario_A_columns(1) and cvp = scenario_A_columns(2)
    and cve = scenario_A_columns(3) and sts = scenario_A_columns(4)
    and nm = scenario_A_columns(5)
  have len: "length (rows ?df) = 2"
    using column_values_length[OF cvr] by simp
  have d: "state_revenue_dict ?df = Some [S ''CA'' \<mapsto> 1500]"
    by (simp add: state_revenue_dict_def cvr sts groupby_def group_add_def isna_def fun_eq_iff)
  have pv: "pivot_table ?df = Some [S ''CA'' \<mapsto> F 750]"
    by (simp add: pivot_table_def cvr sts groupby_def group_add_def isna_def mean_def fun_eq_iff)
  have tc: "top_companies srt (Suc 0) ?df = Some [(0, S ''Acme'', 1000)]"
    using nth_cells[OF nm, of 0]
    by (simp add: top_companies_def cvr sorter_two[OF assms])
  have "filter (\<lambda>r. py_eq (r ''STATE'') (S ''CA'')) (rows ?df) = rows ?df"
  proof -
    have "\<forall>k\<in>set (map (\<lambda>r. r ''STATE'') (rows ?df)). py_eq k (S ''CA'')"
      unfolding sts by (simp add: py_eq_def num_def isna_def)
    then show ?thesis by (simp add: filter_id_conv)
  qed
  then have sd: "state_data (S ''CA'') ?df = ?df"
    by (simp add: state_data_def)
  have pm: "profit_margins ?df = Some (Inr [10, - 10])"
    by (simp add: profit_margins_def cvp cvr profit_margin_def py_truediv_def)
  let ?sd = "set_column ''PROFIT_MARGIN'' [F 10, F (- 10)] ?df"
  obtain r0 r1 where rs: "rows ?df = [r0, r1]"
    using len by (auto simp: length_Suc_conv numeral_2_eq_2)
  have cvm: "column_values ''PROFIT_MARGIN'' ?sd = Some [10, - 10]"
    by (simp add: column_values_def set_column_def rs set_cell_apply num_def)
  have cve': "column_values ''EMPLOYEES'' ?sd = Some [1000, 500]"
    using cve by (simp add: column_values_def set_column_def rs set_cell_apply)
  show ?thesis
    by (simp add: aggregation_pass_def d tc pv sd pm new_frame_def setitem_def cvm cve'
        total_revenue_def mean_def Let_def)
qed

lemma scenario_A_margin_column:
  "map (\<lambda>r. (r ''NAME'', r ''PROFIT_MARGIN''))
     (rows (set_column ''PROFIT_MARGIN'' [F 10, F (- 10)] (cleaned scenario_A))) =
   [(S ''Acme'', F 10), (S ''Beta'', F (- 10))]"
proof -
  have len: "length (rows (cleaned scenario_A)) = 2"
    using column_values_length[OF scenario_A_columns(1)] by simp
  then obtain r0 r1 where rs: "rows (cleaned scenario_A) = [r0, r1]"
    by (auto simp: length_Suc_conv numeral_2_eq_2)
  from scenario_A_columns(5) show ?thesis
    by (simp add: set_column_def rs set_cell_apply)
qed

subsection \<open>The claims about the aggregations\<close>




text \<open>
  Claim C4. The margin lambda returns profit / revenue * 100 when the revenue is not 0
  and 0 when it is, and never raises: the division, which raises on a zero divisor in the
  model, is only reached with a non-zero revenue. So the margins of a frame whose profits
  and revenues are finite numbers are all computed, rows of revenue 0 included.
\<close>

theorem profit_margin_never_raises:
  assumes "column_values ''PROFIT'' sd = Some ps"
      and "column_values ''REVENUES'' sd = Some vs"
  shows "profit_margins sd =
           Some (Inr (map (\<lambda>(p, v). if v = 0 then 0 else p / v * 100) (zip ps vs))) \<and>
         (\<forall>p v. profit_margin p v = Inr (if v = 0 then 0 else p / v * 100))"
  using profit_margins_value[OF assms] by (simp add: profit_margin_value)

theorem profit_margin_never_raises_witness:
  "column_values ''PROFIT'' (cleaned zero_revenue_frame) = Some [100, - 50] \<and>
   column_values ''REVENUES'' (cleaned zero_revenue_frame) = Some [1000, 0] \<and>
   profit_margins (cleaned zero_revenue_frame) = Some (Inr [10, 0]) \<and>
   profit_margin (- 50) 0 = Inr 0"
  using profit_margin_never_raises[OF zero_revenue_columns(2) zero_revenue_columns(1)]
    zero_revenue_columns
  by simp

text \<open>
  Claim C5, as stated: the entries of the revenue-by-region mapping add up to the revenue
  of the whole Table. \<open>groupby\<close> drops the rows whose state is missing, and the filter of
  \<open>load_data\<close> keeps them: in this Table the mapping holds 1000 for CA, the Table's
  revenue is 1300.
\<close>

theorem missing_state_breaks_partition:
  "load_data (Inr missing_state_frame) = Inr ([], cleaned missing_state_frame) \<and>
   map (\<lambda>r. r ''STATE'') (rows (cleaned missing_state_frame)) = [S ''CA'', NA] \<and>
   column_values ''REVENUES'' (cleaned missing_state_frame) = Some [1000, 300] \<and>
   state_revenue_dict (cleaned missing_state_frame) = Some [S ''CA'' \<mapsto> 1000] \<and>
   mapping_total [S ''CA'' \<mapsto> 1000] = 1000 \<and> sum_list [1000, 300 :: real] = 1300"
proof -
  have "state_revenue_dict (cleaned missing_state_frame) = Some [S ''CA'' \<mapsto> 1000]"
    by (simp add: state_revenue_dict_def missing_state_columns groupby_def group_add_def
        isna_def fun_eq_iff)
  then show ?thesis
    by (simp add: examples_load missing_state_columns mapping_total_def)
qed

text \<open>
  Claim C5, amended. For every cleaned Table whose revenues are finite numbers, in exact
  arithmetic, the entries of the revenue-by-region mapping add up to the revenue of the
  rows whose region is not missing; that is the revenue of the whole Table when no row
  has a missing region.
\<close>

theorem state_revenue_partition:
  assumes "column_values ''REVENUES'' df = Some ks"
  shows "\<exists>m. state_revenue_dict df = Some m \<and> finite (dom m) \<and>
           mapping_total m =
             sum_list (map snd (filter (\<lambda>kv. \<not> isna (fst kv))
                                  (zip (map (\<lambda>r. r ''STATE'') (rows df)) ks))) \<and>
           (list_all (\<lambda>r. \<not> isna (r ''STATE'')) (rows df) \<longrightarrow> mapping_total m = sum_list ks)"
proof -
  let ?kvs = "zip (map (\<lambda>r. r ''STATE'') (rows df)) ks"
  let ?m = "\<lambda>k. map_option sum_list (groupby (map (\<lambda>r. r ''STATE'') (rows df)) ks k)"
  let ?K = "{k \<in> fst ` set ?kvs. \<not> isna k}"
  have m: "state_revenue_dict df = Some ?m"
    by (simp add: state_revenue_dict_def assms)
  have d: "dom ?m = ?K"
    by (auto simp: dom_def groupby_lookup)
  have f: "finite ?K" by simp
  have "mapping_total ?m = (\<Sum>k\<in>?K. sum_list (map snd (filter (\<lambda>kv. fst kv = k) ?kvs)))"
    unfolding mapping_total_def d by (intro sum.cong) (auto simp: groupby_lookup)
  also have "\<dots> = sum_list (map snd (filter (\<lambda>kv. fst kv \<in> ?K) ?kvs))"
    by (rule sum_groups[OF f])
  also have "filter (\<lambda>kv. fst kv \<in> ?K) ?kvs = filter (\<lambda>kv. \<not> isna (fst kv)) ?kvs"
    by (intro filter_cong) auto
  finally have t: "mapping_total ?m = sum_list (map snd (filter (\<lambda>kv. \<not> isna (fst kv)) ?kvs))" .
  have l: "length ks = length (rows df)" by (rule column_values_length[OF assms])
  have a: "mapping_total ?m = sum_list ks" if "list_all (\<lambda>r. \<not> isna (r ''STATE'')) (rows df)"
  proof -
    from that have "filter (\<lambda>kv. \<not> isna (fst kv)) ?kvs = ?kvs"
      by (auto simp: filter_id_conv list_all_iff dest!: set_zip_leftD)
    with t l show ?thesis by simp
  qed
  from m d f t a show ?thesis by auto
qed

theorem state_revenue_partition_witness:
  "column_values ''REVENUES'' (cleaned scenario_A) = Some [1000, 500] \<and>
   list_all (\<lambda>r. \<not> isna (r ''STATE'')) (rows (cleaned scenario_A)) \<and>
   (\<exists>m. state_revenue_dict (cleaned scenario_A) = Some m \<and> finite (dom m) \<and>
        mapping_total m = 1500)"
proof -
  have "list_all (\<lambda>r. \<not> isna (r ''STATE'')) (rows (cleaned scenario_A)) \<longleftrightarrow>
        list_all (\<lambda>k. \<not> isna k) (map (\<lambda>r. r ''STATE'') (rows (cleaned scenario_A)))"
    by (simp add: list_all_iff)
  then have s: "list_all (\<lambda>r. \<not> isna (r ''STATE'')) (rows (cleaned scenario_A))"
    unfolding scenario_A_columns(4) by (simp add: isna_def)
  from state_revenue_partition[OF scenario_A_columns(1)] s scenario_A_columns(1)
  show ?thesis by auto
qed

text \<open>
  Claim C6, as stated: when the selected region matches no row, the mean profit margin and
  the mean employee count are a defined "no data" sentinel, not NaN. The script has no
  such guard. The select box offers \<open>df['STATE'].unique()\<close>, which holds NaN when a row
  has no state, and NaN equals nothing: selecting it on this Table matches no row, and
  both means are NaN.
\<close>

theorem missing_state_selected:
  "(case main stable_sorter (Some (Inr missing_state_frame)) 10 NA of
      Dashboard errs (Some (Inr res)) \<Rightarrow>
        errs = [] \<and> res_avg_profit_margin res = NA \<and> res_avg_employees res = NA
    | _ \<Rightarrow> False)"
proof -
  let ?df = "cleaned missing_state_frame"
  have ne: "\<not> df_empty ?df"
    by (simp add: df_empty_def examples_rows)
       (simp add: cleaned_def missing_state_frame_def all_columns_def)
  have cv: "column_values ''REVENUES'' ([?df] ! 0) = Some [1000, 300]"
    by (simp add: missing_state_columns)
  have na: "list_all (\<lambda>r. \<not> py_eq (r ''STATE'') NA) (rows ([?df] ! 0))"
    by (simp add: py_eq_NA list_all_iff)
  from pass_on_empty_selection[OF _ cv na, of stable_sorter 10]
  obtain res where "fst (aggregation_pass stable_sorter 0 10 NA [?df]) = Some (Inr res)"
    "res_avg_profit_margin res = NA" "res_avg_employees res = NA" by auto
  then show ?thesis using ne by (simp add: main_def examples_load)
qed

text \<open>
  Claim C6, amended. When the selected region matches no row of a cleaned Table whose
  revenues are finite numbers, the pass completes and the mean profit margin and the mean
  employee count are both NaN, the mean of no values: the script substitutes no sentinel.
\<close>

theorem empty_selection_mean_is_nan:
  assumes "a < length st"
      and "column_values ''REVENUES'' (st ! a) = Some ks"
      and "list_all (\<lambda>r. \<not> py_eq (r ''STATE'') state) (rows (st ! a))"
  shows "\<exists>res. fst (aggregation_pass srt a top_x state st) = Some (Inr res) \<and>
           res_avg_profit_margin res = NA \<and> res_avg_employees res = NA"
  by (rule pass_on_empty_selection[OF assms])

theorem empty_selection_mean_is_nan_witness:
  "0 < length [cleaned missing_state_frame] \<and>
   column_values ''REVENUES'' ([cleaned missing_state_frame] ! 0) = Some [1000, 300] \<and>
   list_all (\<lambda>r. \<not> py_eq (r ''STATE'') NA) (rows ([cleaned missing_state_frame] ! 0)) \<and>
   (\<exists>res. fst (aggregation_pass stable_sorter 0 10 NA [cleaned missing_state_frame]) =
             Some (Inr res) \<and>
           res_avg_profit_margin res = NA \<and> res_avg_employees res = NA)"
proof -
  have l: "0 < length [cleaned missing_state_frame]" by simp
  have cv: "column_values ''REVENUES'' ([cleaned missing_state_frame] ! 0) = Some [1000, 300]"
    by (simp add: missing_state_columns)
  have na: "list_all (\<lambda>r. \<not> py_eq (r ''STATE'') NA) (rows ([cleaned missing_state_frame] ! 0))"
    by (simp add: py_eq_NA list_all_iff)
  from empty_selection_mean_is_nan[OF l cv na, of stable_sorter 10] l cv na
  show ?thesis by blast
qed

text \<open>
  Claim C8. Scenario A, read as text columns, loads to the revenues 1000.0 and 500.0; one
  pass with N = 1 and the state CA gives the revenue-by-region mapping \<open>{CA: 1500}\<close>, the
  top-1 \<open>[(Acme, 1000)]\<close>, the margins 10 for Acme and -10 for Beta on the selected
  frame, and the mean margin 0, whatever sort meets the contract.
\<close>

theorem scenario_A_results:
  assumes "sorts_descending srt"
  shows "\<exists>df res st'.
           load_data (Inr scenario_A) = Inr ([], df) \<and>
           map (\<lambda>r. r ''REVENUES'') (rows df) = [F 1000, F 500] \<and>
           aggregation_pass srt 0 1 (S ''CA'') [df] = (Some (Inr res), st') \<and>
           res_state_revenue_dict res = [S ''CA'' \<mapsto> 1500] \<and>
           map (\<lambda>t. snd t) (res_top_companies res) = [(S ''Acme'', 1000)] \<and>
           map (\<lambda>r. (r ''NAME'', r ''PROFIT_MARGIN'')) (rows (st' ! res_state_data res)) =
             [(S ''Acme'', F 10), (S ''Beta'', F (- 10))] \<and>
           res_avg_profit_margin res = F 0"
proof -
  from cells_project[OF scenario_A_cells, of "\<lambda>(n, s, r, p, e). r"]
  have rv: "map (\<lambda>r. r ''REVENUES'') (rows (cleaned scenario_A)) = [F 1000, F 500]" by simp
  let ?res = "\<lparr>res_state_revenue_dict = [S ''CA'' \<mapsto> 1500],
              res_top_companies = [(0, S ''Acme'', 1000)],
              res_total_revenue = 1000,
              res_pivot_table = [S ''CA'' \<mapsto> F 750],
              res_state_data = 1,
              res_avg_profit_margin = F 0,
              res_avg_employees = F 750\<rparr>"
  let ?st' = "[cleaned scenario_A,
               set_column ''PROFIT_MARGIN'' [F 10, F (- 10)] (cleaned scenario_A)]"
  from examples_load(1) rv scenario_A_pass[OF assms] scenario_A_margin_column
  show ?thesis
    by (intro exI[of _ "cleaned scenario_A"] exI[of _ ?res] exI[of _ ?st']) simp
qed

theorem scenario_A_results_witness:
  "sorts_descending stable_sorter \<and>
   (\<exists>df res st'.
      load_data (Inr scenario_A) = Inr ([], df) \<and>
      map (\<lambda>r. r ''REVENUES'') (rows df) = [F 1000, F 500] \<and>
      aggregation_pass stable_sorter 0 1 (S ''CA'') [df] = (Some (Inr res), st') \<and>
      res_state_revenue_dict res = [S ''CA'' \<mapsto> 1500] \<and>
      map (\<lambda>t. snd t) (res_top_companies res) = [(S ''Acme'', 1000)] \<and>
      map (\<lambda>r. (r ''NAME'', r ''PROFIT_MARGIN'')) (rows (st' ! res_state_data res)) =
        [(S ''Acme'', F 10), (S ''Beta'', F (- 10))] \<and>
      res_avg_profit_margin res = F 0)"
  using scenario_A_results[OF stable_sorter_sorts] stable_sorter_sorts by simp

text \<open>
  Claim C9. A pass leaves every frame that was in the store as it was and adds the
  selected frame at a new address; the margin column goes onto that new frame. So after
  any sequence of passes, for any N and any selected state, the Table at its address is
  the frame \<open>load_data\<close> returned.
\<close>

theorem aggregation_leaves_table:
  assumes "a < length st"
  shows "run_passes srt a ps st ! a = st ! a \<and>
         take (length st) (run_passes srt a ps st) = st \<and>
         (\<forall>res st'. aggregation_pass srt a top_x state st = (Some (Inr res), st') \<longrightarrow>
            res_state_data res = length st \<and> res_state_data res \<noteq> a \<and>
            ''PROFIT_MARGIN'' \<in> set (columns (st' ! res_state_data res)) \<and>
            st' ! a = st ! a)"
proof -
  have k: "take (length st) (run_passes srt a ps st) = st"
    by (rule run_passes_keeps_frames)
  have "take (length st) (run_passes srt a ps st) ! a = run_passes srt a ps st ! a"
    using assms by simp
  with k have n: "run_passes srt a ps st ! a = st ! a" by simp
  have p: "res_state_data res = length st \<and> res_state_data res \<noteq> a \<and>
            ''PROFIT_MARGIN'' \<in> set (columns (st' ! res_state_data res)) \<and> st' ! a = st ! a"
    if h: "aggregation_pass srt a top_x state st = (Some (Inr res), st')" for res st'
  proof -
    from pass_keeps_frames[of st srt a top_x state] h have "take (length st) st' = st" by simp
    then have "take (length st) st' ! a = st ! a" by simp
    with assms have "st' ! a = st ! a" by simp
    with pass_margin_column[OF assms h] assms show ?thesis by simp
  qed
  from k n p show ?thesis by blast
qed

theorem aggregation_leaves_table_witness:
  "0 < length [cleaned scenario_A] \<and>
   run_passes stable_sorter 0 [(1, S ''CA''), (50, NA), (7, S ''NY'')] [cleaned scenario_A] ! 0 =
     cleaned scenario_A \<and>
   (\<exists>res st'. aggregation_pass stable_sorter 0 1 (S ''CA'') [cleaned scenario_A] =
                 (Some (Inr res), st') \<and>
      res_state_data res = 1 \<and> ''PROFIT_MARGIN'' \<in> set (columns (st' ! 1)) \<and>
      ''PROFIT_MARGIN'' \<notin> set (columns (st' ! 0)) \<and> st' ! 0 = cleaned scenario_A)"
proof -
  have l: "0 < length [cleaned scenario_A]" by simp
  note t = aggregation_leaves_table[OF l, of stable_sorter _ 1 "S ''CA''"]
  note p = scenario_A_pass[OF stable_sorter_sorts]
  have c: "''PROFIT_MARGIN'' \<notin> set (columns (cleaned scenario_A))"
    by (simp add: cleaned_def scenario_A_def all_columns_def)
  from t[of "[(1, S ''CA''), (50, NA), (7, S ''NY'')]"]
  have r: "run_passes stable_sorter 0 [(1, S ''CA''), (50, NA), (7, S ''NY'')]
             [cleaned scenario_A] ! 0 = cleaned scenario_A" by simp
  from t[of "[]"] p c
  have "\<exists>res st'. aggregation_pass stable_sorter 0 1 (S ''CA'') [cleaned scenario_A] =
                 (Some (Inr res), st') \<and>
      res_state_data res = 1 \<and> ''PROFIT_MARGIN'' \<in> set (columns (st' ! 1)) \<and>
      ''PROFIT_MARGIN'' \<notin> set (columns (st' ! 0)) \<and> st' ! 0 = cleaned scenario_A"
    by (intro exI[of _ "\<lparr>res_state_revenue_dict = [S ''CA'' \<mapsto> 1500],
                  res_top_companies = [(0, S ''Acme'', 1000)],
                  res_total_revenue = 1000,
                  res_pivot_table = [S ''CA'' \<mapsto> F 750],
                  res_state_data = 1,
                  res_avg_profit_margin = F 0,
                  res_avg_employees = F 750\<rparr>"]
              exI[of _ "[cleaned scenario_A,
                         set_column ''PROFIT_MARGIN'' [F 10, F (- 10)] (cleaned scenario_A)]"])
       (simp add: set_column_def)
  with l r show ?thesis by blast
qed

text \<open>
  Claim C10. The filter of \<open>load_data\<close> looks at revenue, profit and employee count only,
  so a row without a state that has those three stays in the Table, still without a state.
  The groupings drop such rows: the revenue-by-region and the mean-revenue-by-region
  mappings are those of the Table without them and have no entry for the missing state.
  The top-N does not read the state at all, so it ranks those rows like any other, and
  with N at least the row count it returns every row and the Table's total revenue.
\<close>

theorem missing_state_rows:
  assumes "set required_columns \<subseteq> set (columns raw)"
      and "load_data (Inr raw) = Inr (errs, df)"
      and "column_values ''REVENUES'' df = Some ks"
      and "sorts_descending srt"
  shows "(\<forall>r\<in>set (rows raw).
            isna (r ''STATE'') \<and> \<not> isna (r ''REVENUES'') \<and> \<not> isna (r ''PROFIT'') \<and>
            \<not> isna (r ''EMPLOYEES'') \<longrightarrow>
            clean_row r \<in> set (rows df) \<and> isna (clean_row r ''STATE'')) \<and>
         state_revenue_dict df =
           state_revenue_dict (df\<lparr>rows := filter (\<lambda>r. \<not> isna (r ''STATE'')) (rows df)\<rparr>) \<and>
         pivot_table df =
           pivot_table (df\<lparr>rows := filter (\<lambda>r. \<not> isna (r ''STATE'')) (rows df)\<rparr>) \<and>
         (\<exists>m p. state_revenue_dict df = Some m \<and> pivot_table df = Some p \<and>
                m NA = None \<and> p NA = None) \<and>
         top_companies srt top_x (df\<lparr>rows := map (\<lambda>r. set_cell ''STATE'' (g r) r) (rows df)\<rparr>) =
           top_companies srt top_x df \<and>
         (\<exists>tc. top_companies srt top_x df = Some tc \<and>
               (length (rows df) \<le> top_x \<longrightarrow>
                  fst ` set tc = {..<length (rows df)} \<and> total_revenue tc = sum_list ks))"
proof -
  let ?df' = "df\<lparr>rows := filter (\<lambda>r. \<not> isna (r ''STATE'')) (rows df)\<rparr>"
  note f = column_values_filter[OF assms(3), of "\<lambda>r. \<not> isna (r ''STATE'')"]
  note gd = groupby_dropna[OF assms(3)]
  have l: "length ks = length (rows df)" by (rule column_values_length[OF assms(3)])
  note sp = sorter_positions[OF assms(4), of ks]
  from assms(1,2)
  have out: "rows df = map clean_row (rows (dropna [''REVENUES'', ''PROFIT'', ''EMPLOYEES''] raw))"
    by (auto simp: load_data_rowwise cleaned_def split: if_splits)
  have 0: "\<forall>r\<in>set (rows raw).
            isna (r ''STATE'') \<and> \<not> isna (r ''REVENUES'') \<and> \<not> isna (r ''PROFIT'') \<and>
            \<not> isna (r ''EMPLOYEES'') \<longrightarrow>
            clean_row r \<in> set (rows df) \<and> isna (clean_row r ''STATE'')"
    unfolding out by (auto simp: dropna_rows clean_row_other)
  have 1: "state_revenue_dict df = state_revenue_dict ?df'"
    by (simp add: state_revenue_dict_def assms(3) f gd)
  have 2: "pivot_table df = pivot_table ?df'"
    by (simp add: pivot_table_def assms(3) f gd)
  have 3: "\<exists>m p. state_revenue_dict df = Some m \<and> pivot_table df = Some p \<and>
                m NA = None \<and> p NA = None"
    by (simp add: state_revenue_dict_lookup[OF assms(3)] pivot_table_lookup[OF assms(3)] isna_def)
  have 4: "top_companies srt top_x (df\<lparr>rows := map (\<lambda>r. set_cell ''STATE'' (g r) r) (rows df)\<rparr>) =
           top_companies srt top_x df"
  proof -
    have "i < length (rows df)" if "i \<in> set (take top_x (srt ks))" for i
      using top_positions_in_range[OF assms(4) that] l by simp
    then show ?thesis
      unfolding top_companies_def
      by (simp add: column_values_set_other assms(3)) (auto simp: set_cell_apply)
  qed
  let ?tc = "map (\<lambda>i. (i, (rows df ! i) ''NAME'', ks ! i)) (take top_x (srt ks))"
  have tc: "top_companies srt top_x df = Some ?tc"
    by (simp add: top_companies_def assms(3))
  have 5: "fst ` set ?tc = {..<length (rows df)} \<and> total_revenue ?tc = sum_list ks"
    if "length (rows df) \<le> top_x"
  proof -
    from that l sp(4) have all: "take top_x (srt ks) = srt ks" by simp
    have "fst ` set ?tc = set (srt ks)" unfolding all by (auto simp: image_iff)
    with sp(2) l have a: "fst ` set ?tc = {..<length (rows df)}" by simp
    have "total_revenue ?tc = sum_list (map ((!) ks) (srt ks))"
      unfolding all by (simp add: total_revenue_def comp_def)
    also have "\<dots> = sum ((!) ks) (set (srt ks))"
      by (rule sum_list_distinct_conv_sum_set[OF sp(1)])
    also have "\<dots> = sum ((!) ks) {0..<length ks}"
      unfolding sp(2) by (simp add: atLeast0LessThan)
    also have "\<dots> = sum_list ks" by (simp add: sum_list_sum_nth)
    finally show ?thesis using a by simp
  qed
  from 0 1 2 3 4 tc 5 show ?thesis by blast
qed

theorem missing_state_rows_witness:
  "set required_columns \<subseteq> set (columns missing_state_frame) \<and>
   load_data (Inr missing_state_frame) = Inr ([], cleaned missing_state_frame) \<and>
   column_values ''REVENUES'' (cleaned missing_state_frame) = Some [1000, 300] \<and>
   sorts_descending stable_sorter \<and>
   map (\<lambda>r. r ''STATE'') (rows (cleaned missing_state_frame)) = [S ''CA'', NA] \<and>
   (\<exists>m p. state_revenue_dict (cleaned missing_state_frame) = Some m \<and>
          pivot_table (cleaned missing_state_frame) = Some p \<and> m NA = None \<and> p NA = None) \<and>
   (\<exists>tc. top_companies stable_sorter 10 (cleaned missing_state_frame) = Some tc \<and>
         fst ` set tc = {..<2} \<and> total_revenue tc = 1300)"
proof -
  note h = examples_present(4) examples_load(3) missing_state_columns(1) stable_sorter_sorts
  have len: "length (rows (cleaned missing_state_frame)) = 2"
    using column_values_length[OF missing_state_columns(1)] by simp
  note t = missing_state_rows[OF h, where top_x = 10]
  from t obtain m p where mp: "state_revenue_dict (cleaned missing_state_frame) = Some m"
    "pivot_table (cleaned missing_state_frame) = Some p" "m NA = None" "p NA = None"
    by blast
  from t obtain tc where tc: "top_companies stable_sorter 10 (cleaned missing_state_frame) = Some tc"
    "length (rows (cleaned missing_state_frame)) \<le> 10 \<longrightarrow>
       fst ` set tc = {..<length (rows (cleaned missing_state_frame))} \<and>
       total_revenue tc = sum_list [1000, 300]"
    by blast
  from tc(2) len have "fst ` set tc = {..<2}" "total_revenue tc = 1300" by simp_all
  with tc(1) mp h missing_state_columns(2) show ?thesis by blast
qed

end
